theory Spec2Isabelle
  imports Main
begin

section \<open>JavaScript values and the runtime operations the converter relies on\<close>

text \<open>
  The converter works on the JSON documents of a WordPress REST index
  (\<^verbatim>\<open>response.json()\<close>) and on values it builds from them. A value is modelled by
  \<open>jsval\<close>. An object is the list of its own enumerable properties in enumeration order
  (keys are expected to be distinct; a lookup reads the first binding). Numbers are
  restricted to the safe integers (magnitude below \<open>2 ^ 53\<close>), whose text is their plain
  decimal digits; fractions and larger numbers, which \<^verbatim>\<open>String\<close> prints in shortest or
  exponent form, are not represented. Strings are lists of code units; the character
  classes and the case mapping used below only ever distinguish ASCII characters. The
  names that
  every object inherits (\<^verbatim>\<open>constructor\<close>, \<^verbatim>\<open>valueOf\<close>, \<^verbatim>\<open>__proto__\<close> and the like) are
  taken not to occur as argument names, schema property names or type names: a read
  under such a name finds the inherited member, which \<open>jsval\<close> does not represent.

  A property read on \<^verbatim>\<open>null\<close> or \<^verbatim>\<open>undefined\<close>, a call of something that is not a
  function, and the conversion of an object that cannot be converted to a primitive all
  raise \<^verbatim>\<open>TypeError\<close>; a function that can raise returns \<open>error + 'a\<close>.
\<close>

datatype error = TypeError

datatype jsval =
    JUndefined
  | JNull
  | JBool bool
  | JNum int
  | JStr string
  | JArr "jsval list"
  | JObj "(string \<times> jsval) list"

text \<open>
  Two capabilities of the runtime are parameters of the model: the text that
  \<^verbatim>\<open>new Date().toISOString()\<close> returns at the call, and the outcome of comparing a string
  with zero (\<^verbatim>\<open>s > 0\<close>, which converts the string to a floating-point number first).
\<close>

record js_runtime =
  date_now :: string
  string_gt0 :: "string \<Rightarrow> bool"

fun js_truthy :: "jsval \<Rightarrow> bool" where
  "js_truthy JUndefined = False"
| "js_truthy JNull = False"
| "js_truthy (JBool b) = b"
| "js_truthy (JNum n) = (n \<noteq> 0)"
| "js_truthy (JStr s) = (s \<noteq> [])"
| "js_truthy (JArr xs) = True"
| "js_truthy (JObj kvs) = True"

text \<open>The operator \<^verbatim>\<open>a || b\<close>.\<close>

definition js_or :: "jsval \<Rightarrow> jsval \<Rightarrow> jsval" where
  "js_or a b = (if js_truthy a then a else b)"

fun nullish :: "jsval \<Rightarrow> bool" where
  "nullish JUndefined = True"
| "nullish JNull = True"
| "nullish v = False"

fun is_primitive :: "jsval \<Rightarrow> bool" where
  "is_primitive (JArr xs) = False"
| "is_primitive (JObj kvs) = False"
| "is_primitive v = True"

definition lookup :: "(string \<times> jsval) list \<Rightarrow> string \<Rightarrow> jsval" where
  "lookup kvs k = (case map_of kvs k of Some v \<Rightarrow> v | None \<Rightarrow> JUndefined)"

text \<open>
  \<open>js_prop v k\<close> is the read \<^verbatim>\<open>v.k\<close> on a value that is neither \<^verbatim>\<open>null\<close> nor
  \<^verbatim>\<open>undefined\<close>, for the property names the converter reads (\<^verbatim>\<open>args\<close>, \<^verbatim>\<open>enum\<close>,
  \<^verbatim>\<open>default\<close>, \<^verbatim>\<open>type\<close>, \<^verbatim>\<open>format\<close>, \<^verbatim>\<open>properties\<close>, \<^verbatim>\<open>readonly\<close>, \<^verbatim>\<open>required\<close>,
  \<^verbatim>\<open>description\<close>, \<^verbatim>\<open>length\<close>, \<^verbatim>\<open>join\<close> and the constraint names): none of them is an
  array index, and apart from \<^verbatim>\<open>length\<close> and \<^verbatim>\<open>join\<close> none is inherited from a prototype.
  \<open>js_get\<close> is the read on any value.
\<close>

fun js_prop :: "jsval \<Rightarrow> string \<Rightarrow> jsval" where
  "js_prop (JObj kvs) k = lookup kvs k"
| "js_prop (JArr xs) k = (if k = ''length'' then JNum (int (length xs)) else JUndefined)"
| "js_prop (JStr s) k = (if k = ''length'' then JNum (int (length s)) else JUndefined)"
| "js_prop v k = JUndefined"

definition js_get :: "jsval \<Rightarrow> string \<Rightarrow> error + jsval" where
  "js_get v k = (if nullish v then Inl TypeError else Inr (js_prop v k))"

subsection \<open>Numbers and values as text\<close>

fun show_nat :: "nat \<Rightarrow> string" where
  "show_nat n =
     (if n < 10 then [''0123456789'' ! n]
      else show_nat (n div 10) @ [''0123456789'' ! (n mod 10)])"

declare show_nat.simps [simp del]

definition show_int :: "int \<Rightarrow> string" where
  "show_int i = (if i < 0 then CHR ''-'' # show_nat (nat (- i)) else show_nat (nat i))"

text \<open>
  \<open>js_to_string\<close> is \<^verbatim>\<open>String(v)\<close>, also used by template literals, by \<^verbatim>\<open>+\<close> with a
  string operand, and by \<^verbatim>\<open>Array.prototype.join\<close>. An array is joined with commas, a
  \<^verbatim>\<open>null\<close> or \<^verbatim>\<open>undefined\<close> element giving the empty text. A plain object gives
  \<^verbatim>\<open>[object Object]\<close>, unless it has an own member \<^verbatim>\<open>toString\<close>: a member read from JSON is
  not callable, so the conversion finds no usable method and raises.
\<close>

fun js_to_string :: "jsval \<Rightarrow> error + string"
  and js_join :: "string \<Rightarrow> jsval list \<Rightarrow> error + string" where
  "js_to_string JUndefined = Inr ''undefined''"
| "js_to_string JNull = Inr ''null''"
| "js_to_string (JBool b) = Inr (if b then ''true'' else ''false'')"
| "js_to_string (JNum n) = Inr (show_int n)"
| "js_to_string (JStr s) = Inr s"
| "js_to_string (JArr xs) = js_join '','' xs"
| "js_to_string (JObj kvs) =
     (if map_of kvs ''toString'' = None then Inr ''[object Object]'' else Inl TypeError)"
| "js_join sep [] = Inr []"
| "js_join sep (x # xs) =
     (case (if nullish x then Inr [] else js_to_string x) of
        Inl e \<Rightarrow> Inl e
      | Inr s \<Rightarrow>
          (if xs = [] then Inr s
           else (case js_join sep xs of Inl e \<Rightarrow> Inl e | Inr t \<Rightarrow> Inr (s @ sep @ t))))"

text \<open>
  \<open>js_gt0 rt v\<close> is the comparison \<^verbatim>\<open>v > 0\<close>: \<^verbatim>\<open>undefined\<close> converts to NaN, \<^verbatim>\<open>null\<close> to
  0, a boolean to 0 or 1; an array or object is first converted to its text.
\<close>

fun js_gt0 :: "js_runtime \<Rightarrow> jsval \<Rightarrow> error + bool" where
  "js_gt0 rt JUndefined = Inr False"
| "js_gt0 rt JNull = Inr False"
| "js_gt0 rt (JBool b) = Inr b"
| "js_gt0 rt (JNum n) = Inr (0 < n)"
| "js_gt0 rt (JStr s) = Inr (string_gt0 rt s)"
| "js_gt0 rt v = (case js_to_string v of Inl e \<Rightarrow> Inl e | Inr s \<Rightarrow> Inr (string_gt0 rt s))"

text \<open>\<open>js_at v i\<close> is the indexed read \<^verbatim>\<open>v[i]\<close> on a value that is not nullish.\<close>

fun js_at :: "jsval \<Rightarrow> nat \<Rightarrow> jsval" where
  "js_at (JArr xs) i = (if i < length xs then xs ! i else JUndefined)"
| "js_at (JStr s) i = (if i < length s then JStr [s ! i] else JUndefined)"
| "js_at (JObj kvs) i = lookup kvs (show_nat i)"
| "js_at v i = JUndefined"

text \<open>
  \<open>obj_set\<close> is the assignment \<^verbatim>\<open>obj[k] = v\<close> on an object built by the converter: an
  existing member is overwritten in place, a new one is added last.
\<close>

fun obj_set :: "(string \<times> jsval) list \<Rightarrow> string \<Rightarrow> jsval \<Rightarrow> (string \<times> jsval) list" where
  "obj_set [] k v = [(k, v)]"
| "obj_set ((k', v') # kvs) k v = (if k' = k then (k, v) # kvs else (k', v') # obj_set kvs k v)"

text \<open>The property key a value stands for when it is used as a subscript.\<close>

fun to_key :: "jsval \<Rightarrow> string" where
  "to_key (JStr s) = s"
| "to_key (JNum n) = show_int n"
| "to_key v = (case js_to_string v of Inr s \<Rightarrow> s | Inl e \<Rightarrow> [])"

subsection \<open>lodash \<^verbatim>\<open>each\<close>\<close>

text \<open>
  \<^verbatim>\<open>each(collection, f)\<close> calls \<^verbatim>\<open>f(value, key)\<close> for every element of the collection:
  nothing for \<^verbatim>\<open>null\<close>, \<^verbatim>\<open>undefined\<close> and other primitives; index by index (the key is the
  numeric index) for an array, a string, and any object whose \<^verbatim>\<open>length\<close> member is a
  non-negative safe integer; member by member (the key is the member's name) for any
  other object. The callbacks of the converter never return \<^verbatim>\<open>false\<close>, so no loop is cut
  short; \<open>each_entries\<close> is the list of (key, value) pairs visited.
\<close>

definition indexed_entries :: "jsval \<Rightarrow> nat \<Rightarrow> (jsval \<times> jsval) list" where
  "indexed_entries v n = map (\<lambda>i. (JNum (int i), js_at v i)) [0..<n]"

fun each_entries :: "jsval \<Rightarrow> (jsval \<times> jsval) list" where
  "each_entries (JArr xs) = indexed_entries (JArr xs) (length xs)"
| "each_entries (JStr s) = indexed_entries (JStr s) (length s)"
| "each_entries (JObj kvs) =
     (case map_of kvs ''length'' of
        Some (JNum n) \<Rightarrow>
          (if 0 \<le> n \<and> n \<le> 9007199254740991 then indexed_entries (JObj kvs) (nat n)
           else map (\<lambda>(k, v). (JStr k, v)) kvs)
      | _ \<Rightarrow> map (\<lambda>(k, v). (JStr k, v)) kvs)"
| "each_entries v = []"

text \<open>Running a callback that may raise over a list: the first exception ends the loop.\<close>

fun traverse :: "('a \<Rightarrow> error + 'b) \<Rightarrow> 'a list \<Rightarrow> error + 'b list" where
  "traverse f [] = Inr []"
| "traverse f (x # xs) =
     (case f x of
        Inl e \<Rightarrow> Inl e
      | Inr y \<Rightarrow> (case traverse f xs of Inl e \<Rightarrow> Inl e | Inr ys \<Rightarrow> Inr (y # ys)))"

lemma traverse_cong [fundef_cong]:
  "xs = ys \<Longrightarrow> (\<And>x. x \<in> set ys \<Longrightarrow> f x = g x) \<Longrightarrow> traverse f xs = traverse g ys"
  by (induction ys arbitrary: xs) (auto split: sum.splits)

subsection \<open>Strings and the regular expressions of the converter\<close>

definition is_word :: "char \<Rightarrow> bool" where
  "is_word c =
     (let n = (of_char c :: nat)
      in (48 \<le> n \<and> n \<le> 57) \<or> (65 \<le> n \<and> n \<le> 90) \<or> n = 95 \<or> (97 \<le> n \<and> n \<le> 122))"

definition is_digit :: "char \<Rightarrow> bool" where
  "is_digit c = (let n = (of_char c :: nat) in 48 \<le> n \<and> n \<le> 57)"

definition upper_char :: "char \<Rightarrow> char" where
  "upper_char c =
     (case map_of (zip ''abcdefghijklmnopqrstuvwxyz'' ''ABCDEFGHIJKLMNOPQRSTUVWXYZ'') c of
        Some u \<Rightarrow> u
      | None \<Rightarrow> c)"

definition toUpperCase :: "string \<Rightarrow> string" where
  "toUpperCase s = map upper_char s"

fun starts_with :: "string \<Rightarrow> string \<Rightarrow> bool" where
  "starts_with s [] = True"
| "starts_with [] (p # ps) = False"
| "starts_with (c # cs) (p # ps) = (c = p \<and> starts_with cs ps)"

fun str_includes :: "string \<Rightarrow> string \<Rightarrow> bool" where
  "str_includes [] sub = (sub = [])"
| "str_includes (c # cs) sub = (starts_with (c # cs) sub \<or> str_includes cs sub)"

text \<open>A literal pattern under the \<^verbatim>\<open>i\<close> flag: characters are compared after upper-casing.\<close>

fun starts_with_ci :: "string \<Rightarrow> string \<Rightarrow> bool" where
  "starts_with_ci s [] = True"
| "starts_with_ci [] (p # ps) = False"
| "starts_with_ci (c # cs) (p # ps) = (upper_char c = upper_char p \<and> starts_with_ci cs ps)"

fun search_ci :: "string \<Rightarrow> string \<Rightarrow> bool" where
  "search_ci [] pat = (pat = [])"
| "search_ci (c # cs) pat = (starts_with_ci (c # cs) pat \<or> search_ci cs pat)"

text \<open>
  The capture-group pattern \<^verbatim>\<open>/\(\?P<(\w+)>[^)]+\)/\<close> tried at the head of a string: the
  literal \<^verbatim>\<open>(?P<\<close>, the longest run of word characters (at least one), \<^verbatim>\<open>>\<close>, the longest
  run of characters other than \<^verbatim>\<open>)\<close> (at least one), and \<^verbatim>\<open>)\<close>. Both runs are followed by
  a character outside their class, so a shorter run never matches and no backtracking is
  needed. The result is the captured name and the text after the match.
\<close>

definition match_group :: "string \<Rightarrow> (string \<times> string) option" where
  "match_group s =
     (if starts_with s ''(?P<'' then
        (let nm = takeWhile is_word (drop 4 s);
             r1 = dropWhile is_word (drop 4 s)
         in if nm = [] then None
            else (case r1 of
                    [] \<Rightarrow> None
                  | g # r2 \<Rightarrow>
                      (if g \<noteq> CHR ''>'' then None
                       else (let pat = takeWhile (\<lambda>c. c \<noteq> CHR '')'') r2;
                                 r3 = dropWhile (\<lambda>c. c \<noteq> CHR '')'') r2
                             in if pat = [] then None
                                else (case r3 of [] \<Rightarrow> None | p # r4 \<Rightarrow> Some (nm, r4))))))
      else None)"

lemma match_group_shorter: "match_group s = Some (nm, rest) \<Longrightarrow> length rest < length s"
proof -
  assume m: "match_group s = Some (nm, rest)"
  have d1: "length (dropWhile is_word (drop 4 s)) \<le> length s"
    by (rule order_trans [OF length_dropWhile_le]) simp
  have d2: "\<And>r2. length (dropWhile (\<lambda>c. c \<noteq> CHR '')'') r2) \<le> length r2"
    by (rule length_dropWhile_le)
  from m obtain g r2 p where r1: "dropWhile is_word (drop 4 s) = g # r2"
    and r3: "dropWhile (\<lambda>c. c \<noteq> CHR '')'') r2 = p # rest"
    by (auto simp: match_group_def Let_def split: if_splits list.splits)
  from d1 r1 have "length r2 < length s" by simp
  moreover from d2 [of r2] r3 have "length rest < length r2" by simp
  ultimately show ?thesis by simp
qed

text \<open>
  One left-to-right pass of the pattern with the \<^verbatim>\<open>g\<close> flag, as \<^verbatim>\<open>replace\<close> and
  \<^verbatim>\<open>matchAll\<close> make it: at a match the capture is recorded and the scan goes on after the
  match, otherwise the character is passed over.
\<close>

datatype piece = Group string | Lit char

function scan_groups :: "string \<Rightarrow> piece list" where
  "scan_groups [] = []"
| "scan_groups (c # cs) =
     (case match_group (c # cs) of
        Some (nm, rest) \<Rightarrow> Group nm # scan_groups rest
      | None \<Rightarrow> Lit c # scan_groups cs)"
  by pat_completeness auto
termination
  by (relation "measure length") (auto dest: match_group_shorter)

text \<open>\<^verbatim>\<open>s.replace(/\(\?P<(\w+)>[^)]+\)/g, r)\<close>, the replacement given as a function of the capture.\<close>

definition replace_groups :: "(string \<Rightarrow> string) \<Rightarrow> string \<Rightarrow> string" where
  "replace_groups r s =
     concat (map (\<lambda>p. case p of Group nm \<Rightarrow> r nm | Lit c \<Rightarrow> [c]) (scan_groups s))"

text \<open>The pattern \<^verbatim>\<open>/\{[\w_]+\}/g\<close> of the collection catalogue, replaced by \<^verbatim>\<open>{param}\<close>.\<close>

definition match_brace :: "string \<Rightarrow> string option" where
  "match_brace s =
     (case s of
        [] \<Rightarrow> None
      | b # r \<Rightarrow>
          (if b \<noteq> CHR ''{'' \<or> takeWhile is_word r = [] then None
           else (case dropWhile is_word r of
                   [] \<Rightarrow> None
                 | e # rest \<Rightarrow> (if e = CHR ''}'' then Some rest else None))))"

lemma match_brace_shorter: "match_brace s = Some rest \<Longrightarrow> length rest < length s"
proof -
  assume m: "match_brace s = Some rest"
  then obtain b r e where s: "s = b # r" and r: "dropWhile is_word r = e # rest"
    by (auto simp: match_brace_def split: list.splits if_splits)
  have "length (dropWhile is_word r) \<le> length r" by (rule length_dropWhile_le)
  with s r show ?thesis by simp
qed

function replace_braces :: "string \<Rightarrow> string" where
  "replace_braces [] = []"
| "replace_braces (c # cs) =
     (case match_brace (c # cs) of
        Some rest \<Rightarrow> ''{param}'' @ replace_braces rest
      | None \<Rightarrow> c # replace_braces cs)"
  by pat_completeness auto
termination
  by (relation "measure length") (auto dest: match_brace_shorter)

text \<open>
  \<^verbatim>\<open>route.match(/\/wp\/v2\/(\w+)/)\<close>: the capture of the leftmost match, if there is one.
\<close>

fun resourceMatch :: "string \<Rightarrow> string option" where
  "resourceMatch [] = None"
| "resourceMatch (c # cs) =
     (if starts_with (c # cs) ''/wp/v2/'' \<and> takeWhile is_word (drop 7 (c # cs)) \<noteq> []
      then Some (takeWhile is_word (drop 7 (c # cs)))
      else resourceMatch cs)"

section \<open>wordpress-utils.js\<close>

definition typeReplacements :: "(string \<times> string) list" where
  "typeReplacements =
     [(''date'', ''string''), (''date-time'', ''string''), (''email'', ''string''),
      (''hostname'', ''string''), (''ipv4'', ''string''), (''ipv6'', ''string''),
      (''uri'', ''string''), (''url'', ''string''), (''mixed'', ''string''),
      (''bool'', ''boolean'')]"

text \<open>
  \<open>normalizeWordPressType\<close>: an array is mapped element by element, the first exception
  ending the loop. For any other value the table is read under that value as a property
  key, \<^verbatim>\<open>typeReplacements[type] || type\<close>: the value is converted to its text, which
  raises for an object that has a member \<^verbatim>\<open>toString\<close>; a text found in the table is
  replaced, and otherwise the value is returned as it is.
\<close>

fun normalizeWordPressType :: "jsval \<Rightarrow> error + jsval" where
  "normalizeWordPressType (JArr ts) =
     (case traverse normalizeWordPressType ts of Inl e \<Rightarrow> Inl e | Inr ns \<Rightarrow> Inr (JArr ns))"
| "normalizeWordPressType v =
     (case js_to_string v of
        Inl e \<Rightarrow> Inl e
      | Inr key \<Rightarrow> Inr (case map_of typeReplacements key of Some r \<Rightarrow> JStr r | None \<Rightarrow> v))"

text \<open>
  \<open>normalizeEnum\<close>: \<^verbatim>\<open>[...new Set(values)]\<close> keeps the first occurrence of every value; two
  primitives are the same value when they are equal, an array or object parsed from
  JSON is the same as no other element.
\<close>

fun dedupe :: "jsval list \<Rightarrow> jsval list \<Rightarrow> jsval list" where
  "dedupe seen [] = []"
| "dedupe seen (x # xs) =
     (if is_primitive x \<and> x \<in> set seen then dedupe seen xs else x # dedupe (seen @ [x]) xs)"

fun normalizeEnum :: "jsval \<Rightarrow> jsval" where
  "normalizeEnum (JArr xs) = JArr (dedupe [] xs)"
| "normalizeEnum v = v"

datatype location = Path | Query | Body

text \<open>\<^verbatim>\<open>pathParams.includes(paramName)\<close>: the names are strings, so only a string is found.\<close>

fun includes_name :: "string list \<Rightarrow> jsval \<Rightarrow> bool" where
  "includes_name names (JStr n) = (n \<in> set names)"
| "includes_name names v = False"

definition getParameterLocation :: "string \<Rightarrow> jsval \<Rightarrow> string list \<Rightarrow> location" where
  "getParameterLocation method paramName pathParams =
     (if includes_name pathParams paramName then Path
      else if toUpperCase method = ''GET'' then Query
      else Body)"

definition extractPathParameters :: "string \<Rightarrow> string list" where
  "extractPathParameters route =
     concat (map (\<lambda>p. case p of Group nm \<Rightarrow> [nm] | Lit c \<Rightarrow> []) (scan_groups route))"

definition isParameterRequired :: "jsval \<Rightarrow> bool \<Rightarrow> error + bool" where
  "isParameterRequired argDef isPathParam =
     (if isPathParam then Inr True
      else if nullish argDef then Inl TypeError
      else (case js_prop argDef ''required'' of JBool b \<Rightarrow> Inr b | _ \<Rightarrow> Inr False))"

definition supportedConstraints :: "string list" where
  "supportedConstraints =
     [''minLength'', ''maxLength'', ''minimum'', ''maximum'', ''minItems'', ''maxItems'',
      ''uniqueItems'', ''enum'', ''format'', ''pattern'', ''multipleOf'']"

definition extractValidationConstraints :: "jsval \<Rightarrow> error + jsval" where
  "extractValidationConstraints args =
     (if nullish args then Inl TypeError
      else
        (let constraints =
               concat (map (\<lambda>c. if js_prop args c \<noteq> JUndefined then [(c, js_prop args c)] else [])
                         supportedConstraints)
         in Inr (JObj (if js_truthy (lookup constraints ''enum'')
                       then obj_set constraints ''enum'' (normalizeEnum (lookup constraints ''enum''))
                       else constraints))))"

definition collectionEndpoints :: "string list" where
  "collectionEndpoints =
     [''/wp/v2/posts'', ''/wp/v2/pages'', ''/wp/v2/media'', ''/wp/v2/menu-items'',
      ''/wp/v2/blocks'', ''/wp/v2/templates'', ''/wp/v2/template-parts'',
      ''/wp/v2/navigation'', ''/wp/v2/font-families'', ''/wp/v2/categories'',
      ''/wp/v2/tags'', ''/wp/v2/menus'', ''/wp/v2/wp_pattern_category'', ''/wp/v2/users'',
      ''/wp/v2/comments'', ''/wp/v2/search'', ''/wp/v2/block-types'', ''/wp/v2/themes'',
      ''/wp/v2/plugins'', ''/wp/v2/sidebars'', ''/wp/v2/widget-types'', ''/wp/v2/widgets'',
      ''/wp/v2/block-directory/search'', ''/wp/v2/pattern-directory/patterns'',
      ''/wp/v2/block-patterns/patterns'', ''/wp/v2/block-patterns/categories'',
      ''/wp/v2/font-collections'', ''/wp/v2/posts/{parent}/revisions'',
      ''/wp/v2/posts/{id}/autosaves'', ''/wp/v2/pages/{parent}/revisions'',
      ''/wp/v2/pages/{id}/autosaves'', ''/wp/v2/menu-items/{id}/autosaves'',
      ''/wp/v2/blocks/{parent}/revisions'', ''/wp/v2/blocks/{id}/autosaves'',
      ''/wp/v2/templates/{parent}/revisions'', ''/wp/v2/templates/{id}/autosaves'',
      ''/wp/v2/template-parts/{parent}/revisions'', ''/wp/v2/template-parts/{id}/autosaves'',
      ''/wp/v2/global-styles/{parent}/revisions'',
      ''/wp/v2/global-styles/themes/{stylesheet}/variations'',
      ''/wp/v2/navigation/{parent}/revisions'', ''/wp/v2/navigation/{id}/autosaves'',
      ''/wp/v2/font-families/{font_family_id}/font-faces'',
      ''/wp/v2/users/{user_id}/application-passwords'']"

definition isCollectionEndpoint :: "string \<Rightarrow> bool" where
  "isCollectionEndpoint route =
     (let simplePath = replace_groups (\<lambda>nm. ''{param}'') route
      in list_ex (\<lambda>endpoint. simplePath = replace_braces endpoint) collectionEndpoints)"

section \<open>wordpress-to-bruno.js: example values and request bodies\<close>

lemma lookup_size: "lookup kvs k = JUndefined \<or> size (lookup kvs k) < size (JObj kvs)"
proof (cases "map_of kvs k")
  case None
  then show ?thesis by (simp add: lookup_def)
next
  case (Some v)
  then have "(k, v) \<in> set kvs" by (rule map_of_SomeD)
  then have "size_prod (\<lambda>x. 0) size (k, v) \<le> size_list (size_prod (\<lambda>x. 0) size) kvs"
    by (rule size_list_estimation') simp
  with Some show ?thesis by (simp add: lookup_def)
qed

lemma js_at_size: "size (js_at p i) \<le> size p"
proof (cases p)
  case (JArr xs)
  show ?thesis
  proof (cases "i < length xs")
    case True
    then have "xs ! i \<in> set xs" by simp
    then have "size (xs ! i) \<le> size_list size xs" by (rule size_list_estimation') simp
    with True JArr show ?thesis by simp
  next
    case False
    with JArr show ?thesis by simp
  qed
next
  case (JObj kvs)
  with lookup_size [of kvs "show_nat i"] show ?thesis by auto
qed simp_all

lemma each_entries_size: "(k, v) \<in> set (each_entries p) \<Longrightarrow> size v \<le> size p"
proof (cases p)
  case (JArr xs)
  assume "(k, v) \<in> set (each_entries p)"
  with JArr obtain i where "v = js_at p i"
    by (auto simp: indexed_entries_def simp del: js_at.simps)
  then show ?thesis by (simp add: js_at_size)
next
  case (JStr s)
  assume "(k, v) \<in> set (each_entries p)"
  with JStr obtain i where "v = js_at p i"
    by (auto simp: indexed_entries_def simp del: js_at.simps)
  then show ?thesis by (simp add: js_at_size)
next
  case (JObj kvs)
  assume "(k, v) \<in> set (each_entries p)"
  with JObj have "(\<exists>i. v = js_at p i) \<or> (\<exists>k'. (k', v) \<in> set kvs)"
    by (auto simp: indexed_entries_def simp del: js_at.simps
          split: option.splits jsval.splits if_splits)
  then show ?thesis
  proof
    assume "\<exists>i. v = js_at p i"
    then show ?thesis by (auto simp: js_at_size)
  next
    assume "\<exists>k'. (k', v) \<in> set kvs"
    then obtain k' where "(k', v) \<in> set kvs" ..
    then have "size_prod (\<lambda>x. 0) size (k', v) \<le> size_list (size_prod (\<lambda>x. 0) size) kvs"
      by (rule size_list_estimation') simp
    with JObj show ?thesis by simp
  qed
qed simp_all

lemma prop_entries_size:
  "(k, v) \<in> set (each_entries (js_prop q key)) \<Longrightarrow> size v < size q"
proof (cases q)
  case (JObj kvs)
  assume a: "(k, v) \<in> set (each_entries (js_prop q key))"
  from lookup_size [of kvs key] show ?thesis
  proof
    assume "lookup kvs key = JUndefined"
    with a JObj show ?thesis by simp
  next
    assume "size (lookup kvs key) < size (JObj kvs)"
    with each_entries_size [OF a] JObj show ?thesis by simp
  qed
qed (auto split: if_splits)

text \<open>The condition \<^verbatim>\<open>property.enum && property.enum.length > 0\<close>.\<close>

definition enum_nonempty :: "js_runtime \<Rightarrow> jsval \<Rightarrow> error + bool" where
  "enum_nonempty rt enum =
     (if js_truthy enum then js_gt0 rt (js_prop enum ''length'') else Inr False)"

text \<open>The object the callback \<^verbatim>\<open>obj[propName] = ...\<close> has built after the given visits.\<close>

definition from_entries :: "(jsval \<times> jsval) list \<Rightarrow> (string \<times> jsval) list" where
  "from_entries kvs = foldl (\<lambda>obj (k, v). obj_set obj (to_key k) v) [] kvs"

function generateExampleValue :: "js_runtime \<Rightarrow> jsval \<Rightarrow> jsval \<Rightarrow> error + jsval" where
  "generateExampleValue rt property name =
     (if nullish property then Inl TypeError
      else
        (case enum_nonempty rt (js_prop property ''enum'') of
           Inl e \<Rightarrow> Inl e
         | Inr nonempty \<Rightarrow>
             if nonempty then Inr (js_at (js_prop property ''enum'') 0)
             else if js_prop property ''default'' \<noteq> JUndefined
               then Inr (js_prop property ''default'')
             else
               (case normalizeWordPressType
                       (js_or (js_prop property ''type'') (JStr ''string'')) of
                  Inl e \<Rightarrow> Inl e
                | Inr normalizedType \<Rightarrow>
                   if normalizedType = JStr ''integer'' then Inr (JNum 0)
                   else if normalizedType = JStr ''number'' then Inr (JNum 0)
                   else if normalizedType = JStr ''boolean'' then Inr (JBool False)
                   else if normalizedType = JStr ''array'' then Inr (JArr [])
                   else if normalizedType = JStr ''object'' then
                     (if js_truthy (js_prop property ''properties'') then
                        (case traverse
                                (\<lambda>(propName, prop).
                                   case generateExampleValue rt prop propName of
                                     Inl e \<Rightarrow> Inl e
                                   | Inr v \<Rightarrow> Inr (propName, v))
                                (each_entries (js_prop property ''properties'')) of
                           Inl e \<Rightarrow> Inl e
                         | Inr kvs \<Rightarrow> Inr (JObj (from_entries kvs)))
                      else Inr (JObj []))
                   else if name = JStr ''status'' then Inr (JStr ''publish'')
                   else if name = JStr ''title'' \<or> name = JStr ''name''
                     then Inr (JStr ''Example Title'')
                   else if name = JStr ''content'' then Inr (JStr ''Example content'')
                   else if name = JStr ''excerpt'' then Inr (JStr ''Example excerpt'')
                   else if name = JStr ''slug'' then Inr (JStr ''example-slug'')
                   else if name = JStr ''password'' then Inr (JStr [])
                   else if name = JStr ''author'' then Inr (JNum 1)
                   else if js_prop property ''format'' = JStr ''date-time''
                     then Inr (JStr (date_now rt))
                   else if js_prop property ''format'' = JStr ''uri''
                     then Inr (JStr ''https://example.com'')
                   else Inr (JStr []))))"
  by pat_completeness auto
termination
  by (relation "measure (\<lambda>(rt, property, name). size property)")
     (auto dest: prop_entries_size)

declare generateExampleValue.simps [simp del]

definition commonFields :: "string list" where
  "commonFields =
     [''title'', ''content'', ''excerpt'', ''status'', ''author'', ''slug'', ''password'',
      ''name'', ''description'']"

text \<open>
  The first loop of \<open>generateRequestBody\<close>, over the arguments: \<open>body\<close> is the object built
  so far.
\<close>

fun argsPass ::
  "js_runtime \<Rightarrow> string \<Rightarrow> string list \<Rightarrow> (jsval \<times> jsval) list \<Rightarrow> (string \<times> jsval) list
   \<Rightarrow> error + (string \<times> jsval) list" where
  "argsPass rt method pathParams [] body = Inr body"
| "argsPass rt method pathParams ((argName, arg) # rest) body =
     (if argName = JStr ''context'' \<or> includes_name pathParams argName
        then argsPass rt method pathParams rest body
      else if nullish arg then Inl TypeError
      else if js_prop arg ''readonly'' = JBool True
        then argsPass rt method pathParams rest body
      else if getParameterLocation method argName pathParams = Body then
        (case normalizeWordPressType (js_or (js_prop arg ''type'') (JStr ''string'')) of
           Inl e \<Rightarrow> Inl e
         | Inr normalizedType \<Rightarrow>
             (let property =
                    JObj [(''type'', normalizedType),
                          (''default'', js_prop arg ''default''),
                          (''enum'', if js_truthy (js_prop arg ''enum'')
                                     then normalizeEnum (js_prop arg ''enum'') else JUndefined),
                          (''format'', js_prop arg ''format'')]
              in case generateExampleValue rt property argName of
                   Inl e \<Rightarrow> Inl e
                 | Inr v \<Rightarrow>
                     argsPass rt method pathParams rest (obj_set body (to_key argName) v)))
      else argsPass rt method pathParams rest body)"

text \<open>The second loop, over the properties of the resource schema.\<close>

fun schemaPass ::
  "js_runtime \<Rightarrow> (jsval \<times> jsval) list \<Rightarrow> (string \<times> jsval) list
   \<Rightarrow> error + (string \<times> jsval) list" where
  "schemaPass rt [] body = Inr body"
| "schemaPass rt ((name, property) # rest) body =
     (if lookup body (to_key name) \<noteq> JUndefined then schemaPass rt rest body
      else if nullish property then Inl TypeError
      else if js_prop property ''readonly'' = JBool True then schemaPass rt rest body
      else if includes_name commonFields name then
        (case generateExampleValue rt property name of
           Inl e \<Rightarrow> Inl e
         | Inr v \<Rightarrow> schemaPass rt rest (obj_set body (to_key name) v))
      else schemaPass rt rest body)"

text \<open>
  \<open>requestBodyMapping\<close> is the local \<^verbatim>\<open>body\<close> of \<open>generateRequestBody\<close> when its
  \<^verbatim>\<open>return\<close> is reached. The function returns \<^verbatim>\<open>null\<close> (\<open>None\<close>) or the text
  \<^verbatim>\<open>JSON.stringify(body, null, 2)\<close>, which is represented by the value it serialises.
\<close>

definition requestBodyMapping ::
  "js_runtime \<Rightarrow> jsval \<Rightarrow> jsval \<Rightarrow> string \<Rightarrow> string list \<Rightarrow> error + (string \<times> jsval) list" where
  "requestBodyMapping rt args schema method pathParams =
     (case (if js_truthy args then argsPass rt method pathParams (each_entries args) []
            else Inr []) of
        Inl e \<Rightarrow> Inl e
      | Inr body \<Rightarrow>
          (let properties = (if nullish schema then JUndefined else js_prop schema ''properties'')
           in if js_truthy properties then schemaPass rt (each_entries properties) body
              else Inr body))"

definition generateRequestBody ::
  "js_runtime \<Rightarrow> jsval \<Rightarrow> jsval \<Rightarrow> string \<Rightarrow> string list \<Rightarrow> error + jsval option" where
  "generateRequestBody rt args schema method pathParams =
     (case requestBodyMapping rt args schema method pathParams of
        Inl e \<Rightarrow> Inl e
      | Inr body \<Rightarrow> Inr (if length body > 0 then Some (JObj body) else None))"

text \<open>
  The members of the object that \<^verbatim>\<open>JSON.parse\<close> reads back from the text of an object:
  \<^verbatim>\<open>JSON.stringify\<close> leaves out a member whose value is \<^verbatim>\<open>undefined\<close>.
\<close>

fun parsed_keys :: "jsval \<Rightarrow> string list" where
  "parsed_keys (JObj kvs) = map fst (filter (\<lambda>kv. snd kv \<noteq> JUndefined) kvs)"
| "parsed_keys v = []"

section \<open>wordpress-to-bruno.js: the endpoint transformer\<close>

text \<open>
  A request item as \<open>transformWordPressEndpoint\<close> builds it. The members \<^verbatim>\<open>uid\<close> (random
  identifiers drawn from \<^verbatim>\<open>nanoid\<close>) are left out, and so are the members that are the
  same constant in every item: \<^verbatim>\<open>auth\<close> (mode \<^verbatim>\<open>inherit\<close>), \<^verbatim>\<open>script\<close>, \<^verbatim>\<open>vars\<close>,
  \<^verbatim>\<open>assertions\<close> (an empty list) and the unused members of \<^verbatim>\<open>body\<close>. The member
  \<^verbatim>\<open>body.json\<close> is \<^verbatim>\<open>null\<close> or the text returned by \<open>generateRequestBody\<close>.
\<close>

record param =
  param_name :: jsval
  param_value :: string
  param_description :: jsval
  param_enabled :: bool
  param_type :: location

record header =
  header_name :: string
  header_value :: string
  header_description :: string
  header_enabled :: bool

record request =
  req_url :: string
  req_method :: string
  req_headers :: "header list"
  req_params :: "param list"
  req_body_mode :: string
  req_body_json :: "jsval option"
  req_tests :: string

record item =
  item_name :: string
  item_type :: string
  item_seq :: nat
  item_request :: request

definition and_then :: "error + 'a \<Rightarrow> ('a \<Rightarrow> error + 'b) \<Rightarrow> error + 'b" where
  "and_then r f = (case r of Inl e \<Rightarrow> Inl e | Inr v \<Rightarrow> f v)"

text \<open>The \<^verbatim>\<open>switch\<close> that names the request.\<close>

definition requestName :: "string \<Rightarrow> string \<Rightarrow> string" where
  "requestName methodUpper route =
     (let resource = (case resourceMatch route of Some r \<Rightarrow> r | None \<Rightarrow> ''resource'');
          hasIdParam = str_includes route ''(?P<'';
          isAutosave = str_includes route ''autosaves'';
          isRevision = str_includes route ''revisions'';
          isCollection = isCollectionEndpoint route
      in if methodUpper = ''GET'' then
           (if isAutosave then
              (if hasIdParam \<and> search_ci route ''autosaves/(?P<id>''
               then ''Get '' @ resource @ '' autosave by ID''
               else ''List '' @ resource @ '' autosaves'')
            else if isRevision then
              (if hasIdParam \<and> search_ci route ''revisions/(?P<id>''
               then ''Get '' @ resource @ '' revision by ID''
               else ''List '' @ resource @ '' revisions'')
            else if hasIdParam then ''Get '' @ resource @ '' by ID''
            else if isCollection then ''List '' @ resource
            else ''Get '' @ resource)
         else if methodUpper = ''POST'' then
           (if isAutosave then ''Create '' @ resource @ '' autosave''
            else if isRevision then ''Create '' @ resource @ '' revision''
            else ''Create '' @ resource)
         else if methodUpper = ''PUT'' \<or> methodUpper = ''PATCH'' then ''Update '' @ resource
         else if methodUpper = ''DELETE'' then
           (if isAutosave then ''Delete '' @ resource @ '' autosave''
            else if isRevision then ''Delete '' @ resource @ '' revision''
            else ''Delete '' @ resource)
         else methodUpper @ '' '' @ route)"

text \<open>\<^verbatim>\<open>d + s\<close> and \<^verbatim>\<open>d += s\<close> for a string \<open>s\<close>: the text of \<open>d\<close> followed by \<open>s\<close>.\<close>

definition js_append :: "jsval \<Rightarrow> string \<Rightarrow> error + jsval" where
  "js_append d s = (case js_to_string d of Inl e \<Rightarrow> Inl e | Inr t \<Rightarrow> Inr (JStr (t @ s)))"

text \<open>\<^verbatim>\<open>v.join(', ')\<close>: only an array has the method.\<close>

fun call_join :: "jsval \<Rightarrow> error + string" where
  "call_join (JArr xs) = js_join '', '' xs"
| "call_join v = Inl TypeError"

text \<open>The description of a query parameter, with the validation notes appended.\<close>

definition queryDescription :: "jsval \<Rightarrow> jsval \<Rightarrow> error + jsval" where
  "queryDescription arg constraints =
     (let description0 =
            (js_or (js_prop arg ''description'') (JStr []));
          enum = js_prop constraints ''enum'';
          minLength = js_prop constraints ''minLength'';
          maxLength = js_prop constraints ''maxLength''
      in and_then
           (if js_truthy enum then
              and_then (js_append description0 (if js_truthy description0 then ''. '' else []))
                (\<lambda>d. and_then (call_join enum)
                  (\<lambda>joined. js_append d (''Allowed values: '' @ joined)))
            else Inr description0)
           (\<lambda>description1.
              if js_truthy minLength \<or> js_truthy maxLength then
                and_then
                  (js_append description1 (if js_truthy description1 then ''. '' else []))
                  (\<lambda>d2. and_then
                     (if js_truthy minLength then
                        and_then (js_to_string minLength)
                          (\<lambda>t. js_append d2 (''Min length: '' @ t))
                      else Inr d2)
                     (\<lambda>d3. and_then
                        (if js_truthy minLength \<and> js_truthy maxLength then js_append d3 '', ''
                         else Inr d3)
                        (\<lambda>d4. if js_truthy maxLength then
                                 and_then (js_to_string maxLength)
                                   (\<lambda>t. js_append d4 (''Max length: '' @ t))
                               else Inr d4)))
              else Inr description1))"

text \<open>
  The callback of \<^verbatim>\<open>each(args, ...)\<close> in the transformer: the parameter entry pushed for
  one argument, if any.
\<close>

definition paramFromArg :: "string \<Rightarrow> string list \<Rightarrow> jsval \<times> jsval \<Rightarrow> error + param option" where
  "paramFromArg methodUpper pathParams entry =
     (let argName = fst entry; arg = snd entry
      in if argName = JStr ''context'' then Inr None
         else
           (case getParameterLocation methodUpper argName pathParams of
              Path \<Rightarrow>
                (if nullish arg then Inl TypeError
                 else Inr (Some \<lparr>param_name = argName, param_value = [],
                            param_description =
                              (js_or (js_prop arg ''description'') (JStr [])),
                            param_enabled = True, param_type = Path\<rparr>))
            | Query \<Rightarrow>
                (if nullish arg then Inl TypeError
                 else
                   and_then
                     (if js_prop arg ''default'' \<noteq> JUndefined
                      then js_to_string (js_prop arg ''default'') else Inr [])
                     (\<lambda>defaultValue. and_then (isParameterRequired arg False)
                       (\<lambda>isRequired. and_then (extractValidationConstraints arg)
                         (\<lambda>constraints. and_then (queryDescription arg constraints)
                           (\<lambda>description.
                              Inr (Some \<lparr>param_name = argName, param_value = defaultValue,
                                     param_description = description,
                                     param_enabled = isRequired, param_type = Query\<rparr>))))))
            | Body \<Rightarrow> Inr None))"

definition commonParams :: "(string \<times> string \<times> string) list" where
  "commonParams =
     [(''page'', ''1'', ''Current page of the collection''),
      (''per_page'', ''10'', ''Maximum number of items to be returned''),
      (''search'', [], ''Limit results to those matching a string''),
      (''orderby'', ''date'', ''Sort collection by object attribute''),
      (''order'', ''desc'', ''Order sort attribute ascending or descending'')]"

definition commonParam :: "string \<times> string \<times> string \<Rightarrow> param" where
  "commonParam c =
     \<lparr>param_name = JStr (fst c), param_value = fst (snd c),
      param_description = JStr (snd (snd c)), param_enabled = False, param_type = Query\<rparr>"

text \<open>The \<^verbatim>\<open>forEach\<close> over \<open>commonParams\<close>: each one is pushed unless the name is found.\<close>

fun addCommonParams :: "param list \<Rightarrow> (string \<times> string \<times> string) list \<Rightarrow> param list" where
  "addCommonParams params [] = params"
| "addCommonParams params (c # cs) =
     addCommonParams
       (if list_ex (\<lambda>p. param_name p = JStr (fst c)) params then params
        else params @ [commonParam c])
       cs"

definition embedParam :: param where
  "embedParam =
     \<lparr>param_name = JStr ''_embed'', param_value = ''1'',
      param_description = JStr ''Include embedded resources in response'',
      param_enabled = False, param_type = Query\<rparr>"

definition contentTypeHeader :: header where
  "contentTypeHeader =
     \<lparr>header_name = ''Content-Type'', header_value = ''application/json'',
      header_description = [], header_enabled = True\<rparr>"

definition statusTest :: "string \<Rightarrow> string" where
  \<open>statusTest code =
     ''test("Status code is '' @ code @ ''", function() {'' @ [CHR 0x0A] @
     ''  expect(res.status).to.equal('' @ code @ '');'' @ [CHR 0x0A] @
     ''});''\<close>

definition arrayTest :: string where
  \<open>arrayTest =
     [CHR 0x0A, CHR 0x0A] @
     ''test("Response is an array", function() {'' @ [CHR 0x0A] @
     ''  expect(res.body).to.be.an('' @ [CHR 0x27] @ ''array'' @ [CHR 0x27] @ '');'' @ [CHR 0x0A] @
     ''});''\<close>

text \<open>The parameter entries made from the arguments: the first loop of the transformer.\<close>

definition argParams :: "string \<Rightarrow> string list \<Rightarrow> jsval \<Rightarrow> error + param list" where
  "argParams methodUpper pathParams args =
     (case traverse (paramFromArg methodUpper pathParams) (each_entries args) of
        Inl e \<Rightarrow> Inl e
      | Inr entries \<Rightarrow> Inr (concat (map (\<lambda>p. case p of Some x \<Rightarrow> [x] | None \<Rightarrow> []) entries)))"

text \<open>\<^verbatim>\<open>endpoint.args || {}\<close>, for an endpoint that is not nullish.\<close>

definition endpointArgs :: "jsval \<Rightarrow> jsval" where
  "endpointArgs endpoint = js_or (js_prop endpoint ''args'') (JObj [])"

definition transformWordPressEndpoint ::
  "js_runtime \<Rightarrow> string \<Rightarrow> string \<Rightarrow> jsval \<Rightarrow> jsval \<Rightarrow> error + item" where
  "transformWordPressEndpoint rt route method endpoint schema =
     (let methodUpper = toUpperCase method
      in if nullish endpoint then Inl TypeError
         else
           (let args = endpointArgs endpoint;
                hasIdParam = str_includes route ''(?P<'';
                isCollection = isCollectionEndpoint route;
                name = requestName methodUpper route;
                brunoUrl = replace_groups (\<lambda>nm. CHR '':'' # nm) route;
                headers = (if methodUpper \<in> set [''POST'', ''PUT'', ''PATCH'']
                           then [contentTypeHeader] else []);
                pathParams = extractPathParameters route
            in and_then (argParams methodUpper pathParams args)
                 (\<lambda>params0.
                    let params =
                          (if methodUpper = ''GET'' \<and> \<not> hasIdParam
                           then addCommonParams params0 commonParams @ [embedParam]
                           else params0)
                    in and_then
                         (if methodUpper \<in> set [''POST'', ''PUT'', ''PATCH'']
                          then generateRequestBody rt args schema methodUpper pathParams
                          else Inr None)
                         (\<lambda>bodyJson.
                            Inr \<lparr>item_name = name, item_type = ''http-request'', item_seq = 1,
                                 item_request =
                                   \<lparr>req_url = ''{{baseUrl}}'' @ brunoUrl,
                                    req_method = methodUpper,
                                    req_headers = headers,
                                    req_params = params,
                                    req_body_mode =
                                      (if bodyJson = None then ''none'' else ''json''),
                                    req_body_json = bodyJson,
                                    req_tests =
                                      statusTest
                                        (if methodUpper = ''POST'' then ''201'' else ''200'') @
                                      (if methodUpper = ''GET'' \<and> isCollection \<and> \<not> hasIdParam
                                       then arrayTest else [])\<rparr>\<rparr>))))"

section \<open>wordpress-to-bruno.js: the folder organizer\<close>


text \<open>
  The pattern \<^verbatim>\<open>/\/([^/]+\/v\d+)\/([^/:?]+)/\<close> tried at the head of a string: a slash, the
  longest run of characters other than a slash, \<^verbatim>\<open>/v\<close>, the longest run of digits, a
  slash, and the longest run of characters other than \<^verbatim>\<open>/\<close>, \<^verbatim>\<open>:\<close> and \<^verbatim>\<open>?\<close>, each run
  with at least one character. Every run is followed by a character outside its class,
  so a shorter run never matches. The result is the pair of captures. \<open>not_slash\<close> is the
  class \<^verbatim>\<open>[^/]\<close> and \<open>resource_char\<close> the class \<^verbatim>\<open>[^/:?]\<close>.
\<close>

definition not_slash :: "char \<Rightarrow> bool" where
  "not_slash c = (c \<noteq> CHR ''/'')"

definition resource_char :: "char \<Rightarrow> bool" where
  "resource_char c = (c \<notin> set ''/:?'')"

definition match_folders :: "string \<Rightarrow> (string \<times> string) option" where
  "match_folders s =
     (case s of
        [] \<Rightarrow> None
      | c # r \<Rightarrow>
          (if c \<noteq> CHR ''/'' \<or> takeWhile not_slash r = [] then None
           else
             (case dropWhile not_slash r of
                sl # v # r2 \<Rightarrow>
                  (if sl \<noteq> CHR ''/'' \<or> v \<noteq> CHR ''v'' \<or> takeWhile is_digit r2 = [] then None
                   else
                     (case dropWhile is_digit r2 of
                        [] \<Rightarrow> None
                      | sl2 # r4 \<Rightarrow>
                          (if sl2 \<noteq> CHR ''/'' \<or> takeWhile resource_char r4 = []
                           then None
                           else Some (takeWhile not_slash r @ ''/v'' @ takeWhile is_digit r2,
                                      takeWhile resource_char r4))))
              | _ \<Rightarrow> None)))"

text \<open>\<^verbatim>\<open>url.match(...)\<close>: the captures of the leftmost match.\<close>

fun urlMatch :: "string \<Rightarrow> (string \<times> string) option" where
  "urlMatch [] = None"
| "urlMatch (c # cs) =
     (case match_folders (c # cs) of Some m \<Rightarrow> Some m | None \<Rightarrow> urlMatch cs)"




section \<open>Vocabulary of the properties\<close>

text \<open>
  A runtime for the closed examples. None of them reaches a comparison of a string with
  zero, so the value given to \<open>string_gt0\<close> plays no role.
\<close>

definition sample_runtime :: js_runtime where
  "sample_runtime = \<lparr>date_now = ''2024-01-01T00:00:00.000Z'', string_gt0 = (\<lambda>s. False)\<rparr>"

text \<open>
  The routes \<^verbatim>\<open>/wp/v2/posts/(?P<id>[\d]+)\<close> and
  \<^verbatim>\<open>/wp/v2/users/(?P<user_id>(?:[\d]+|me))/application-passwords\<close>.
\<close>

definition posts_id_route :: string where
  "posts_id_route = ''/wp/v2/posts/(?P<id>['' @ [CHR 0x5C] @ ''d]+)''"

definition application_passwords_route :: string where
  "application_passwords_route =
     ''/wp/v2/users/(?P<user_id>(?:['' @ [CHR 0x5C] @ ''d]+|me))/application-passwords''"

text \<open>
  A route written as literal text and capture groups: \<open>route_of lit0 gs\<close> is the literal
  \<open>lit0\<close> followed, for every \<open>(nm, pat, lit)\<close> of \<open>gs\<close>, by the group
  \<^verbatim>\<open>(?P<nm>pat)\<close> and the literal \<open>lit\<close>; \<open>template_of\<close> is the same text with every group
  replaced by \<^verbatim>\<open>:nm\<close>. A group is simple when its name is a non-empty run of word
  characters and its pattern is non-empty and has no closing parenthesis; a text is
  literal when the opener \<^verbatim>\<open>(?P<\<close> does not occur in it.
\<close>

definition capture_group :: "string \<Rightarrow> string \<Rightarrow> string" where
  "capture_group nm pat = ''(?P<'' @ nm @ ''>'' @ pat @ '')''"

definition simple_group :: "string \<Rightarrow> string \<Rightarrow> bool" where
  "simple_group nm pat = (nm \<noteq> [] \<and> list_all is_word nm \<and> pat \<noteq> [] \<and> CHR '')'' \<notin> set pat)"

definition literal_text :: "string \<Rightarrow> bool" where
  "literal_text s = (\<not> str_includes s ''(?P<'')"

fun route_of :: "string \<Rightarrow> (string \<times> string \<times> string) list \<Rightarrow> string" where
  "route_of lit0 [] = lit0"
| "route_of lit0 ((nm, pat, lit) # gs) = lit0 @ capture_group nm pat @ route_of lit gs"

fun template_of :: "string \<Rightarrow> (string \<times> string \<times> string) list \<Rightarrow> string" where
  "template_of lit0 [] = lit0"
| "template_of lit0 ((nm, pat, lit) # gs) = lit0 @ '':'' @ nm @ template_of lit gs"




definition item_key :: "item \<Rightarrow> (string \<times> string) option" where
  "item_key it = urlMatch (req_url (item_request it))"

definition first_seen :: "'a list \<Rightarrow> 'a list" where
  "first_seen xs = foldl (\<lambda>acc x. if x \<in> set acc then acc else acc @ [x]) [] xs"

definition item_keys :: "item list \<Rightarrow> (string \<times> string) list" where
  "item_keys items = concat (map (\<lambda>it. case item_key it of Some k \<Rightarrow> [k] | None \<Rightarrow> []) items)"

definition seen_namespaces :: "item list \<Rightarrow> string list" where
  "seen_namespaces items = first_seen (map fst (item_keys items))"

definition seen_resources :: "string \<Rightarrow> item list \<Rightarrow> string list" where
  "seen_resources ns items = first_seen (map snd (filter (\<lambda>k. fst k = ns) (item_keys items)))"

definition requests_of :: "string \<Rightarrow> string \<Rightarrow> item list \<Rightarrow> item list" where
  "requests_of ns r items = filter (\<lambda>it. item_key it = Some (ns, r)) items"




text \<open>
  Example values. A mapping of nested properties is plain when its names are distinct
  and it has no member \<^verbatim>\<open>length\<close> that is a number (so that it is visited member by
  member). A field is unset when it has neither a non-empty enum nor a default, and
  object typed when its normalized type is \<^verbatim>\<open>object\<close>. \<open>clock_case\<close> is the case of an
  unset field with the \<^verbatim>\<open>date-time\<close> format. A field is time dependent when it is in
  that case, or when it is unset, object typed, and one of its nested properties is time
  dependent. \<open>later_runtime\<close> is \<open>sample_runtime\<close> at another time.
\<close>

definition plain_mapping :: "(string \<times> jsval) list \<Rightarrow> bool" where
  "plain_mapping props =
     (distinct (map fst props) \<and> (case lookup props ''length'' of JNum n \<Rightarrow> False | _ \<Rightarrow> True))"

definition unset :: "js_runtime \<Rightarrow> jsval \<Rightarrow> bool" where
  "unset rt p =
     (\<not> nullish p \<and> enum_nonempty rt (js_prop p ''enum'') = Inr False \<and>
      js_prop p ''default'' = JUndefined)"

definition object_typed :: "jsval \<Rightarrow> bool" where
  "object_typed p =
     (normalizeWordPressType (js_or (js_prop p ''type'') (JStr ''string'')) = Inr (JStr ''object''))"

definition clock_case :: "js_runtime \<Rightarrow> jsval \<Rightarrow> bool" where
  "clock_case rt p = (unset rt p \<and> js_prop p ''format'' = JStr ''date-time'')"

function time_dependent :: "js_runtime \<Rightarrow> jsval \<Rightarrow> bool" where
  "time_dependent rt p =
     (clock_case rt p \<or>
      (unset rt p \<and> object_typed p \<and>
       list_ex (\<lambda>(k, q). time_dependent rt q) (each_entries (js_prop p ''properties''))))"
  by pat_completeness auto
termination
  by (relation "measure (\<lambda>(rt, p). size p)") (auto dest: prop_entries_size)

declare time_dependent.simps [simp del]

definition later_runtime :: js_runtime where
  "later_runtime = \<lparr>date_now = ''2031-05-05T12:00:00.000Z'', string_gt0 = (\<lambda>s. False)\<rparr>"

text \<open>
  Request bodies. \<open>from_args pathParams args k\<close>: \<open>k\<close> is the key of an argument that is not
  \<^verbatim>\<open>context\<close>, not a path parameter and not marked read-only. \<open>from_schema schema k\<close>: \<open>k\<close>
  is one of the common field names and names a property of the schema that is not marked
  read-only.
\<close>

definition from_args :: "string list \<Rightarrow> jsval \<Rightarrow> string \<Rightarrow> bool" where
  "from_args pathParams args k =
     list_ex (\<lambda>(argName, arg).
                to_key argName = k \<and> argName \<noteq> JStr ''context'' \<and>
                \<not> includes_name pathParams argName \<and> js_prop arg ''readonly'' \<noteq> JBool True)
       (each_entries args)"

definition from_schema :: "jsval \<Rightarrow> string \<Rightarrow> bool" where
  "from_schema schema k =
     (k \<in> set commonFields \<and>
      list_ex (\<lambda>(name, property). name = JStr k \<and> js_prop property ''readonly'' \<noteq> JBool True)
        (each_entries (js_prop schema ''properties'')))"

text \<open>
  Well-shaped input. A value is printable when its conversion to text cannot raise: it
  is a primitive, an object without a member \<^verbatim>\<open>toString\<close>, or a list of printable values.
  An argument is well shaped when it is neither \<^verbatim>\<open>null\<close> nor \<^verbatim>\<open>undefined\<close>, its members
  \<^verbatim>\<open>type\<close>, \<^verbatim>\<open>default\<close>, \<^verbatim>\<open>description\<close>, \<^verbatim>\<open>minLength\<close> and \<^verbatim>\<open>maxLength\<close> are printable (a
  missing member is), and its \<^verbatim>\<open>enum\<close> is falsy (missing, for one) or a list of printable
  values; the argument \<^verbatim>\<open>context\<close> may be anything. A schema property is well shaped when
  it is neither \<^verbatim>\<open>null\<close> nor \<^verbatim>\<open>undefined\<close>, its \<^verbatim>\<open>type\<close> is printable, its \<^verbatim>\<open>enum\<close> is falsy
  or such a list, and its nested properties are well shaped; a schema is well shaped
  when its properties are, and any value without properties is.
\<close>

fun printable :: "jsval \<Rightarrow> bool" where
  "printable (JArr xs) = list_all printable xs"
| "printable (JObj kvs) = (map_of kvs ''toString'' = None)"
| "printable v = True"

definition list_or_falsy :: "jsval \<Rightarrow> bool" where
  "list_or_falsy e = (case e of JArr xs \<Rightarrow> list_all printable xs | _ \<Rightarrow> \<not> js_truthy e)"

definition arg_ok :: "jsval \<Rightarrow> bool" where
  "arg_ok arg =
     (\<not> nullish arg \<and> printable (js_prop arg ''type'') \<and>
      printable (js_prop arg ''default'') \<and>
      printable (js_prop arg ''description'') \<and> printable (js_prop arg ''minLength'') \<and>
      printable (js_prop arg ''maxLength'') \<and> list_or_falsy (js_prop arg ''enum''))"

definition args_ok :: "jsval \<Rightarrow> bool" where
  "args_ok args = list_all (\<lambda>(k, arg). k = JStr ''context'' \<or> arg_ok arg) (each_entries args)"

function field_ok :: "jsval \<Rightarrow> bool" where
  "field_ok p =
     (\<not> nullish p \<and> printable (js_prop p ''type'') \<and> list_or_falsy (js_prop p ''enum'') \<and>
      list_all (\<lambda>(k, q). field_ok q) (each_entries (js_prop p ''properties'')))"
  by pat_completeness auto
termination
  by (relation "measure size") (auto dest: prop_entries_size)

declare field_ok.simps [simp del]

definition schema_ok :: "jsval \<Rightarrow> bool" where
  "schema_ok schema = list_all (\<lambda>(k, q). field_ok q) (each_entries (js_prop schema ''properties''))"

section \<open>The shape of a transformed endpoint\<close>

lemma transform_Inr:
  assumes "transformWordPressEndpoint rt route method endpoint schema = Inr d"
  shows "\<exists>ps bodyJson.
     \<not> nullish endpoint \<and>
     argParams (toUpperCase method) (extractPathParameters route) (endpointArgs endpoint) = Inr ps \<and>
     (if toUpperCase method \<in> set [''POST'', ''PUT'', ''PATCH'']
      then generateRequestBody rt (endpointArgs endpoint) schema (toUpperCase method)
             (extractPathParameters route)
      else Inr None) = Inr bodyJson \<and>
     d = \<lparr>item_name = requestName (toUpperCase method) route, item_type = ''http-request'',
          item_seq = 1,
          item_request =
            \<lparr>req_url = ''{{baseUrl}}'' @ replace_groups (\<lambda>nm. CHR '':'' # nm) route,
             req_method = toUpperCase method,
             req_headers = (if toUpperCase method \<in> set [''POST'', ''PUT'', ''PATCH'']
                            then [contentTypeHeader] else []),
             req_params =
               (if toUpperCase method = ''GET'' \<and> \<not> str_includes route ''(?P<''
                then addCommonParams ps commonParams @ [embedParam] else ps),
             req_body_mode = (if bodyJson = None then ''none'' else ''json''),
             req_body_json = bodyJson,
             req_tests =
               statusTest (if toUpperCase method = ''POST'' then ''201'' else ''200'') @
               (if toUpperCase method = ''GET'' \<and> isCollectionEndpoint route \<and>
                   \<not> str_includes route ''(?P<''
                then arrayTest else [])\<rparr>\<rparr>"
proof -
  from assms have ne: "\<not> nullish endpoint"
    by (auto simp: transformWordPressEndpoint_def Let_def split: if_splits)
  from assms ne obtain ps where
    p0: "argParams (toUpperCase method) (extractPathParameters route) (endpointArgs endpoint) = Inr ps"
    by (cases "argParams (toUpperCase method) (extractPathParameters route) (endpointArgs endpoint)")
       (simp_all add: transformWordPressEndpoint_def Let_def and_then_def)
  from assms ne p0 obtain bodyJson where
    b: "(if toUpperCase method \<in> set [''POST'', ''PUT'', ''PATCH'']
         then generateRequestBody rt (endpointArgs endpoint) schema (toUpperCase method)
                (extractPathParameters route)
         else Inr None) = Inr bodyJson"
    by (cases "(if toUpperCase method \<in> set [''POST'', ''PUT'', ''PATCH'']
         then generateRequestBody rt (endpointArgs endpoint) schema (toUpperCase method)
                (extractPathParameters route)
         else Inr None)")
       (simp_all add: transformWordPressEndpoint_def Let_def and_then_def)
  from assms ne p0 b show ?thesis
    by (simp add: transformWordPressEndpoint_def Let_def and_then_def)
qed

lemma transform_ok:
  assumes "\<not> nullish endpoint"
    and "argParams (toUpperCase method) (extractPathParameters route) (endpointArgs endpoint) = Inr ps"
    and "(if toUpperCase method \<in> set [''POST'', ''PUT'', ''PATCH'']
      then generateRequestBody rt (endpointArgs endpoint) schema (toUpperCase method)
             (extractPathParameters route)
      else Inr None) = Inr bodyJson"
  shows "\<exists>d. transformWordPressEndpoint rt route method endpoint schema = Inr d"
  using assms by (simp add: transformWordPressEndpoint_def Let_def and_then_def)

lemma transform_url:
  "transformWordPressEndpoint rt route method endpoint schema = Inr d \<Longrightarrow>
   req_url (item_request d) = ''{{baseUrl}}'' @ replace_groups (\<lambda>nm. CHR '':'' # nm) route"
  by (drule transform_Inr) auto

lemma toUpperCase_GET: "toUpperCase ''GET'' = ''GET''"
  by (simp add: toUpperCase_def upper_char_def)

section \<open>The parameter classifier\<close>

text \<open>
  C4. For every method, parameter name and list of path-parameter names: a name that is
  among the path parameters is classified \<open>Path\<close> whatever the method; any other name is
  classified \<open>Query\<close> when the method is GET and \<open>Body\<close> otherwise. The method is compared
  after upper-casing, as the code does, so \<^verbatim>\<open>get\<close> counts as GET. In particular the
  classifier never answers \<open>Body\<close> for the method \<^verbatim>\<open>GET\<close>.
\<close>

theorem getParameterLocation_rule:
  "(k \<in> JStr ` set pathParams \<longrightarrow> getParameterLocation method k pathParams = Path) \<and>
   (k \<notin> JStr ` set pathParams \<and> toUpperCase method = ''GET'' \<longrightarrow>
      getParameterLocation method k pathParams = Query) \<and>
   (k \<notin> JStr ` set pathParams \<and> toUpperCase method \<noteq> ''GET'' \<longrightarrow>
      getParameterLocation method k pathParams = Body) \<and>
   (method = ''GET'' \<longrightarrow> getParameterLocation method k pathParams \<noteq> Body)"
proof -
  have inc: "includes_name pathParams k = (k \<in> JStr ` set pathParams)"
    by (cases k) auto
  show ?thesis
    unfolding getParameterLocation_def inc using toUpperCase_GET by auto
qed

theorem getParameterLocation_rule_witness:
  "getParameterLocation ''PUT'' (JStr ''id'') [''id''] = Path \<and>
   getParameterLocation ''get'' (JStr ''page'') [''id''] = Query \<and>
   getParameterLocation ''DELETE'' (JStr ''force'') [''id''] = Body \<and>
   getParameterLocation ''GET'' (JStr ''force'') [''id''] \<noteq> Body"
  using getParameterLocation_rule [of "JStr ''id''" "[''id'']" "''PUT''"]
    getParameterLocation_rule [of "JStr ''page''" "[''id'']" "''get''"]
    getParameterLocation_rule [of "JStr ''force''" "[''id'']" "''DELETE''"]
    getParameterLocation_rule [of "JStr ''force''" "[''id'']" "''GET''"]
  by (simp add: toUpperCase_def upper_char_def)

section \<open>The URL template\<close>

lemma match_group_capture:
  assumes "simple_group nm pat"
  shows "match_group (capture_group nm pat @ rest) = Some (nm, rest)"
proof -
  from assms have w: "\<And>x. x \<in> set nm \<Longrightarrow> is_word x" and nm: "nm \<noteq> []"
    and p: "\<And>x. x \<in> set pat \<Longrightarrow> x \<noteq> CHR '')''" and pat: "pat \<noteq> []"
    by (auto simp: simple_group_def list_all_iff)
  have gt: "\<not> is_word CHR ''>''" by (simp add: is_word_def)
  have t1: "takeWhile is_word (nm @ CHR ''>'' # pat @ CHR '')'' # rest) = nm"
    using w gt by (simp add: takeWhile_append2)
  have d1: "dropWhile is_word (nm @ CHR ''>'' # pat @ CHR '')'' # rest)
              = CHR ''>'' # pat @ CHR '')'' # rest"
    using w gt by (simp add: dropWhile_append2)
  have t2: "takeWhile (\<lambda>c. c \<noteq> CHR '')'') (pat @ CHR '')'' # rest) = pat"
    using p by (simp add: takeWhile_append2)
  have d2: "dropWhile (\<lambda>c. c \<noteq> CHR '')'') (pat @ CHR '')'' # rest) = CHR '')'' # rest"
    using p by (simp add: dropWhile_append2)
  show ?thesis
    using nm pat by (simp add: match_group_def capture_group_def t1 d1 t2 d2)
qed

text \<open>
  No match starts inside a literal text: the opener does not occur in it, and it cannot
  straddle the end of the literal, because what follows is nothing or \<^verbatim>\<open>(\<close>.
\<close>

lemma literal_no_match:
  assumes "literal_text (c # l)" and "rest = [] \<or> hd rest = CHR ''(''"
  shows "match_group ((c # l) @ rest) = None"
proof -
  have "\<not> starts_with ((c # l) @ rest) ''(?P<''"
    using assms
    by (cases l; cases "tl l"; cases "tl (tl l)"; cases rest)
       (auto simp: literal_text_def)
  then show ?thesis by (simp only: match_group_def if_False)
qed

lemma literal_tail: "literal_text (c # l) \<Longrightarrow> literal_text l"
  by (simp add: literal_text_def)

lemma scan_literal:
  "literal_text lit \<Longrightarrow> rest = [] \<or> hd rest = CHR ''('' \<Longrightarrow>
   scan_groups (lit @ rest) = map Lit lit @ scan_groups rest"
proof (induction lit)
  case Nil
  then show ?case by simp
next
  case (Cons c l)
  from Cons.prems have "match_group ((c # l) @ rest) = None" by (rule literal_no_match)
  moreover from Cons have "scan_groups (l @ rest) = map Lit l @ scan_groups rest"
    by (simp add: literal_tail)
  ultimately show ?case by simp
qed

lemma replace_route:
  "literal_text lit0 \<Longrightarrow> \<forall>(nm, pat, lit) \<in> set gs. simple_group nm pat \<and> literal_text lit \<Longrightarrow>
   replace_groups r (route_of lit0 gs)
     = lit0 @ concat (map (\<lambda>(nm, pat, lit). r nm @ lit) gs)"
proof (induction gs arbitrary: lit0)
  case Nil
  have "scan_groups (lit0 @ []) = map Lit lit0 @ scan_groups []"
    using Nil by (intro scan_literal) simp_all
  then show ?case by (simp add: replace_groups_def comp_def)
next
  case (Cons g gs)
  obtain nm pat lit where g: "g = (nm, pat, lit)" by (cases g)
  from Cons.prems g have sg: "simple_group nm pat" and ll: "literal_text lit"
    and rest: "\<forall>(nm, pat, lit) \<in> set gs. simple_group nm pat \<and> literal_text lit"
    by auto
  have ih: "replace_groups r (route_of lit gs)
              = lit @ concat (map (\<lambda>(nm, pat, lit). r nm @ lit) gs)"
    using ll rest by (rule Cons.IH)
  have hd: "hd (capture_group nm pat @ route_of lit gs) = CHR ''(''"
    by (simp add: capture_group_def)
  have "scan_groups (lit0 @ capture_group nm pat @ route_of lit gs)
        = map Lit lit0 @ scan_groups (capture_group nm pat @ route_of lit gs)"
    using Cons.prems(1) hd by (intro scan_literal) simp_all
  moreover have "scan_groups (capture_group nm pat @ route_of lit gs)
        = Group nm # scan_groups (route_of lit gs)"
  proof -
    have ne: "capture_group nm pat @ route_of lit gs
               = CHR ''('' # tl (capture_group nm pat @ route_of lit gs)"
      by (simp add: capture_group_def)
    show ?thesis
      by (subst ne, simp only: scan_groups.simps, subst ne [symmetric])
         (simp add: match_group_capture [OF sg])
  qed
  ultimately show ?case
    using ih by (simp add: g replace_groups_def comp_def)
qed

text \<open>
  Simple groups are replaced as intended. For every route made of literal texts and
  simple capture groups \<^verbatim>\<open>(?P<name>pattern)\<close> (the pattern non-empty and without a closing
  parenthesis), the URL template of the produced descriptor is \<^verbatim>\<open>{{baseUrl}}\<close> followed by
  the route with every group replaced by \<^verbatim>\<open>:name\<close>, the literal texts unchanged and in
  the same order.
\<close>

lemma url_template_simple_groups:
  assumes "literal_text lit0"
    and "\<forall>(nm, pat, lit) \<in> set gs. simple_group nm pat \<and> literal_text lit"
    and "transformWordPressEndpoint rt (route_of lit0 gs) method endpoint schema = Inr d"
  shows "req_url (item_request d) = ''{{baseUrl}}'' @ template_of lit0 gs"
proof -
  have t: "template_of lit0 gs = lit0 @ concat (map (\<lambda>(nm, pat, lit). (CHR '':'' # nm) @ lit) gs)"
    by (induction lit0 gs rule: template_of.induct) auto
  from assms(3) have "req_url (item_request d)
      = ''{{baseUrl}}'' @ replace_groups (\<lambda>nm. CHR '':'' # nm) (route_of lit0 gs)"
    by (rule transform_url)
  also have "replace_groups (\<lambda>nm. CHR '':'' # nm) (route_of lit0 gs)
      = lit0 @ concat (map (\<lambda>(nm, pat, lit). (CHR '':'' # nm) @ lit) gs)"
    using assms(1,2) by (rule replace_route)
  finally show ?thesis by (simp only: t)
qed

lemma url_template_simple_groups_example:
  "literal_text ''/wp/v2/posts/'' \<and> simple_group ''parent'' (''['' @ [CHR 0x5C] @ ''d]+'') \<and>
   literal_text ''/revisions/'' \<and> simple_group ''id'' (''['' @ [CHR 0x5C] @ ''d]+'') \<and>
   literal_text [] \<and>
   map_sum id (\<lambda>d. req_url (item_request d))
     (transformWordPressEndpoint sample_runtime
        (route_of ''/wp/v2/posts/''
           [(''parent'', ''['' @ [CHR 0x5C] @ ''d]+'', ''/revisions/''),
            (''id'', ''['' @ [CHR 0x5C] @ ''d]+'', [])])
        ''GET'' (JObj []) JNull)
     = Inr ''{{baseUrl}}/wp/v2/posts/:parent/revisions/:id''"
proof -
  let ?gs = "[(''parent'', ''['' @ [CHR 0x5C] @ ''d]+'', ''/revisions/''),
              (''id'', ''['' @ [CHR 0x5C] @ ''d]+'', [])]"
  have h1: "literal_text ''/wp/v2/posts/''" by (simp add: literal_text_def)
  have g1: "simple_group ''parent'' (''['' @ [CHR 0x5C] @ ''d]+'')"
    by (simp add: simple_group_def is_word_def)
  have g2: "simple_group ''id'' (''['' @ [CHR 0x5C] @ ''d]+'')"
    by (simp add: simple_group_def is_word_def)
  have l1: "literal_text ''/revisions/''" by (simp add: literal_text_def)
  have l2: "literal_text []" by (simp add: literal_text_def)
  have h2: "\<forall>(nm, pat, lit) \<in> set ?gs. simple_group nm pat \<and> literal_text lit"
    using g1 g2 l1 l2 by simp
  have "\<exists>d. transformWordPressEndpoint sample_runtime (route_of ''/wp/v2/posts/'' ?gs)
               ''GET'' (JObj []) JNull = Inr d"
    by (rule transform_ok [where ps = "[]" and bodyJson = None])
       (simp_all add: toUpperCase_GET endpointArgs_def js_or_def lookup_def argParams_def)
  then obtain d where d: "transformWordPressEndpoint sample_runtime
      (route_of ''/wp/v2/posts/'' ?gs) ''GET'' (JObj []) JNull = Inr d" ..
  from url_template_simple_groups [OF h1 h2 d]
  have "req_url (item_request d) = ''{{baseUrl}}/wp/v2/posts/:parent/revisions/:id''"
    by simp
  with d h1 g1 g2 l1 l2 show ?thesis by simp
qed

text \<open>
  The catalogue of collection endpoints lists the application passwords of a user, but
  the route that WordPress registers for them is not recognised as that entry: the
  pattern that reduces a capture group to \<^verbatim>\<open>{param}\<close> ends the group at the first closing
  parenthesis and leaves the second one in the path.
\<close>

lemma application_passwords_not_collection:
  "''/wp/v2/users/{user_id}/application-passwords'' \<in> set collectionEndpoints \<and>
   \<not> isCollectionEndpoint application_passwords_route"
proof -
  have sc: "scan_groups application_passwords_route
    = map Lit ''/wp/v2/users/'' @ [Group ''user_id''] @ map Lit '')/application-passwords''"
    by (simp add: application_passwords_route_def match_group_def is_word_def)
  have sp: "replace_groups (\<lambda>nm. ''{param}'') application_passwords_route
      = ''/wp/v2/users/{param})/application-passwords''"
    by (simp add: replace_groups_def sc)
  have "\<not> isCollectionEndpoint application_passwords_route"
    unfolding isCollectionEndpoint_def sp Let_def collectionEndpoints_def
    by (simp add: match_brace_def is_word_def)
  then show ?thesis by (simp add: collectionEndpoints_def)
qed

text \<open>
  C5. For every route that contains capture groups \<^verbatim>\<open>(?P<name>pattern)\<close>, the URL template
  is to have every group replaced by \<^verbatim>\<open>:name\<close>, with the literal text around the groups
  unchanged and in order. The transformer misses this for a group whose pattern nests a
  group. The route \<^verbatim>\<open>/wp/v2/users/(?P<user_id>(?:[\d]+|me))/application-passwords\<close> of
  WordPress is the literal \<^verbatim>\<open>/wp/v2/users/\<close>, one capture group named \<^verbatim>\<open>user_id\<close> and the
  literal \<^verbatim>\<open>/application-passwords\<close>; the transformer returns the template
  \<^verbatim>\<open>{{baseUrl}}/wp/v2/users/:user_id)/application-passwords\<close>, which keeps the closing
  parenthesis of the group and so is not the template
  \<^verbatim>\<open>{{baseUrl}}/wp/v2/users/:user_id/application-passwords\<close> that replacing the group gives.
\<close>

theorem url_template_nested_group:
  "application_passwords_route
     = route_of ''/wp/v2/users/''
         [(''user_id'', ''(?:['' @ [CHR 0x5C] @ ''d]+|me)'', ''/application-passwords'')] \<and>
   map_sum id (\<lambda>d. req_url (item_request d))
     (transformWordPressEndpoint sample_runtime application_passwords_route
        ''GET'' (JObj []) JNull)
     = Inr ''{{baseUrl}}/wp/v2/users/:user_id)/application-passwords'' \<and>
   ''{{baseUrl}}/wp/v2/users/:user_id)/application-passwords''
     \<noteq> ''{{baseUrl}}'' @ template_of ''/wp/v2/users/''
         [(''user_id'', ''(?:['' @ [CHR 0x5C] @ ''d]+|me)'', ''/application-passwords'')]"
proof -
  have sc: "scan_groups application_passwords_route
    = map Lit ''/wp/v2/users/'' @ [Group ''user_id''] @ map Lit '')/application-passwords''"
    by (simp add: application_passwords_route_def match_group_def is_word_def)
  have url: "replace_groups (\<lambda>nm. CHR '':'' # nm) application_passwords_route
    = ''/wp/v2/users/:user_id)/application-passwords''"
    by (simp add: replace_groups_def sc)
  have pp: "extractPathParameters application_passwords_route = [''user_id'']"
    by (simp add: extractPathParameters_def sc)
  have a0: "argParams ''GET'' [''user_id''] (JObj []) = Inr []"
    by (simp add: argParams_def)
  have hasid: "str_includes application_passwords_route ''(?P<''"
    by (simp add: application_passwords_route_def)
  have "map_sum id (\<lambda>d. req_url (item_request d))
     (transformWordPressEndpoint sample_runtime application_passwords_route
        ''GET'' (JObj []) JNull)
     = Inr ''{{baseUrl}}/wp/v2/users/:user_id)/application-passwords''"
    using hasid
    by (simp add: transformWordPressEndpoint_def Let_def and_then_def toUpperCase_GET
        endpointArgs_def js_or_def lookup_def url pp a0)
  then show ?thesis by (simp add: capture_group_def application_passwords_route_def)
qed

section \<open>The scenario of a single post\<close>

lemma scan_posts_id:
  "scan_groups posts_id_route = map Lit ''/wp/v2/posts/'' @ [Group ''id'']"
  by (simp add: posts_id_route_def match_group_def is_word_def)

lemma name_posts_id: "requestName ''GET'' posts_id_route = ''Get posts by ID''"
  by (simp add: posts_id_route_def requestName_def Let_def is_word_def)

lemma has_id_posts_id: "str_includes posts_id_route ''(?P<''"
  by (simp add: posts_id_route_def)

lemma url_posts_id:
  "replace_groups (\<lambda>nm. CHR '':'' # nm) posts_id_route = ''/wp/v2/posts/:id''"
  by (simp add: replace_groups_def scan_posts_id)

lemma path_params_posts_id: "extractPathParameters posts_id_route = [''id'']"
  by (simp add: extractPathParameters_def scan_posts_id)

text \<open>
  C1, as amended. For a GET endpoint on the route \<^verbatim>\<open>/wp/v2/posts/(?P<id>[\d]+)\<close> whose
  argument mapping is empty, the transformer produces the descriptor named
  \<^verbatim>\<open>Get posts by ID\<close> with URL template \<^verbatim>\<open>{{baseUrl}}/wp/v2/posts/:id\<close>, an empty parameter
  list, no header, body mode \<^verbatim>\<open>none\<close>, and a test text that holds exactly one test, which
  asserts status 200. Parameter entries are made from the arguments only: when the
  argument mapping holds the one argument \<^verbatim>\<open>id\<close> (any object), the parameter list is exactly
  one entry, an enabled path parameter named \<^verbatim>\<open>id\<close> with an empty value.
\<close>

theorem get_post_by_id_descriptor:
  \<open>transformWordPressEndpoint rt posts_id_route ''GET'' (JObj [(''args'', JObj [])]) schema =
     Inr \<lparr>item_name = ''Get posts by ID'', item_type = ''http-request'', item_seq = 1,
          item_request =
            \<lparr>req_url = ''{{baseUrl}}/wp/v2/posts/:id'', req_method = ''GET'',
             req_headers = [], req_params = [], req_body_mode = ''none'',
             req_body_json = None,
             req_tests =
               ''test("Status code is 200", function() {'' @ [CHR 0x0A] @
               ''  expect(res.status).to.equal(200);'' @ [CHR 0x0A] @ ''});''\<rparr>\<rparr> \<and>
   transformWordPressEndpoint rt posts_id_route ''GET''
       (JObj [(''args'', JObj [(''id'', JObj kvs)])]) schema =
     Inr \<lparr>item_name = ''Get posts by ID'', item_type = ''http-request'', item_seq = 1,
          item_request =
            \<lparr>req_url = ''{{baseUrl}}/wp/v2/posts/:id'', req_method = ''GET'',
             req_headers = [],
             req_params =
               [\<lparr>param_name = JStr ''id'', param_value = [],
                 param_description =
                   (js_or (lookup kvs ''description'') (JStr [])),
                 param_enabled = True, param_type = Path\<rparr>],
             req_body_mode = ''none'', req_body_json = None,
             req_tests =
               ''test("Status code is 200", function() {'' @ [CHR 0x0A] @
               ''  expect(res.status).to.equal(200);'' @ [CHR 0x0A] @ ''});''\<rparr>\<rparr>\<close>
proof -
  have a0: "argParams ''GET'' [''id''] (JObj []) = Inr []"
    by (simp add: argParams_def)
  have a1: "argParams ''GET'' [''id''] (JObj [(''id'', JObj kvs)]) =
      Inr [\<lparr>param_name = JStr ''id'', param_value = [],
                 param_description =
                   (js_or (lookup kvs ''description'') (JStr [])),
                 param_enabled = True, param_type = Path\<rparr>]"
    by (simp add: argParams_def paramFromArg_def getParameterLocation_def)
  show ?thesis
    using has_id_posts_id
    by (simp add: transformWordPressEndpoint_def Let_def and_then_def toUpperCase_GET
        endpointArgs_def js_or_def lookup_def url_posts_id path_params_posts_id a0 a1 name_posts_id
        statusTest_def)
qed

text \<open>
  The claim as first stated asks for one path parameter \<^verbatim>\<open>id\<close> when the argument mapping
  is empty; the parameter list is empty then.
\<close>

theorem get_post_by_id_params_counterexample:
  "map_sum id (\<lambda>d. req_params (item_request d))
     (transformWordPressEndpoint sample_runtime posts_id_route ''GET''
        (JObj [(''args'', JObj [])]) JNull) = Inr []"
proof -
  have a0: "argParams ''GET'' [''id''] (JObj []) = Inr []"
    by (simp add: argParams_def)
  show ?thesis
    using has_id_posts_id
    by (simp add: transformWordPressEndpoint_def Let_def and_then_def toUpperCase_GET
        endpointArgs_def js_or_def lookup_def url_posts_id path_params_posts_id a0 name_posts_id)
qed

section \<open>The folder organizer\<close>

lemma first_seen_snoc:
  "first_seen (xs @ [x]) = (if x \<in> set (first_seen xs) then first_seen xs else first_seen xs @ [x])"
  by (simp add: first_seen_def)

lemma first_seen_Nil: "first_seen [] = []"
  by (simp add: first_seen_def)

lemma set_first_seen: "set (first_seen xs) = set xs"
  by (induction xs rule: rev_induct) (auto simp: first_seen_snoc first_seen_Nil)



















text \<open>
  A consequence for reordered input: two lists with the same descriptors give the same
  namespaces, the same resources in every namespace and the same descriptors in every
  resource; only the orders, which are first-seen orders, can differ.
\<close>

lemma set_item_keys: "set (item_keys items) = {k. \<exists>it \<in> set items. item_key it = Some k}"
  by (induction items) (auto simp: item_keys_def split: option.splits)

lemma organize_same_groups:
  assumes "set items' = set items"
  shows "set (seen_namespaces items') = set (seen_namespaces items) \<and>
         set (seen_resources ns items') = set (seen_resources ns items) \<and>
         set (requests_of ns r items') = set (requests_of ns r items)"
proof -
  from assms have "set (item_keys items') = set (item_keys items)"
    by (simp add: set_item_keys)
  with assms show ?thesis
    by (simp add: seen_namespaces_def seen_resources_def requests_of_def set_first_seen)
qed

section \<open>Parameters and body of DELETE and GET list endpoints\<close>

lemma addCommonParams_filter:
  "distinct (map fst cs) \<Longrightarrow>
   addCommonParams ps cs
     = ps @ filter (\<lambda>c. param_name c \<notin> param_name ` set ps) (map commonParam cs)"
proof (induction cs arbitrary: ps)
  case Nil
  show ?case by simp
next
  case (Cons c cs)
  then have d: "distinct (map fst cs)" and nc: "fst c \<notin> fst ` set cs" by auto
  have ex: "list_ex (\<lambda>p. param_name p = JStr (fst c)) ps = (param_name (commonParam c) \<in> param_name ` set ps)"
    by (force simp: list_ex_iff commonParam_def image_iff)
  have same: "\<And>x. x \<in> set cs \<Longrightarrow> param_name (commonParam x) \<noteq> param_name (commonParam c)"
    using nc by (force simp: commonParam_def image_iff)
  show ?case
  proof (cases "param_name (commonParam c) \<in> param_name ` set ps")
    case True
    with Cons.IH [OF d, of ps] ex show ?thesis by simp
  next
    case False
    have "filter (\<lambda>x. param_name x \<notin> param_name ` set (ps @ [commonParam c])) (map commonParam cs)
        = filter (\<lambda>x. param_name x \<notin> param_name ` set ps) (map commonParam cs)"
      using same by (intro filter_cong) auto
    with Cons.IH [OF d, of "ps @ [commonParam c]"] ex False show ?thesis by simp
  qed
qed

lemma common_distinct: "distinct (map fst commonParams)"
  by (simp add: commonParams_def)

lemma toUpperCase_DELETE: "toUpperCase ''DELETE'' = ''DELETE''"
  by (simp add: toUpperCase_def upper_char_def)

lemma location_DELETE:
  "getParameterLocation ''DELETE'' k pp = (if includes_name pp k then Path else Body)"
  by (simp add: getParameterLocation_def toUpperCase_DELETE)

lemma traverse_DELETE:
  "traverse (paramFromArg ''DELETE'' pp) es = Inr rs \<Longrightarrow>
   map param_name (concat (map (\<lambda>p. case p of Some x \<Rightarrow> [x] | None \<Rightarrow> []) rs))
     = filter (\<lambda>k. k \<noteq> JStr ''context'' \<and> includes_name pp k) (map fst es) \<and>
   list_all (\<lambda>p. param_type p = Path)
     (concat (map (\<lambda>p. case p of Some x \<Rightarrow> [x] | None \<Rightarrow> []) rs))"
proof (induction es arbitrary: rs)
  case Nil
  then show ?case by simp
next
  case (Cons e es)
  from Cons.prems obtain r rs' where r: "paramFromArg ''DELETE'' pp e = Inr r"
    and rs': "traverse (paramFromArg ''DELETE'' pp) es = Inr rs'" and rs: "rs = r # rs'"
    by (auto split: sum.splits)
  from r have "(case r of Some x \<Rightarrow> [x] | None \<Rightarrow> [])
       = (if fst e \<noteq> JStr ''context'' \<and> includes_name pp (fst e)
          then [\<lparr>param_name = fst e, param_value = [],
                 param_description =
                   (js_or (js_prop (snd e) ''description'') (JStr [])),
                 param_enabled = True, param_type = Path\<rparr>]
          else [])"
    by (auto simp: paramFromArg_def Let_def location_DELETE split: if_splits)
  with Cons.IH [OF rs'] rs show ?case by simp
qed

text \<open>
  C10. For every endpoint whose method is DELETE (after upper-casing), the produced
  descriptor has body mode \<^verbatim>\<open>none\<close> and no body text, carries no header (so no
  \<^verbatim>\<open>Content-Type\<close>), and its parameter list holds path parameters only: exactly one entry for
  each argument, other than \<^verbatim>\<open>context\<close>, whose name is a path parameter of the route, in
  the order of the arguments. The other arguments appear nowhere in the descriptor.
\<close>

theorem delete_descriptor:
  assumes "toUpperCase method = ''DELETE''"
    and "transformWordPressEndpoint rt route method endpoint schema = Inr d"
  shows "req_body_mode (item_request d) = ''none'' \<and>
         req_body_json (item_request d) = None \<and>
         req_headers (item_request d) = [] \<and>
         list_all (\<lambda>p. param_type p = Path) (req_params (item_request d)) \<and>
         map param_name (req_params (item_request d))
           = filter (\<lambda>k. k \<noteq> JStr ''context'' \<and> includes_name (extractPathParameters route) k)
               (map fst (each_entries (endpointArgs endpoint)))"
proof -
  from transform_Inr [OF assms(2)] assms(1) obtain ps where
    ps: "argParams ''DELETE'' (extractPathParameters route) (endpointArgs endpoint) = Inr ps"
    and d: "req_params (item_request d) = ps" "req_body_mode (item_request d) = ''none''"
      "req_body_json (item_request d) = None" "req_headers (item_request d) = []"
    by auto
  from ps obtain rs where
    rs: "traverse (paramFromArg ''DELETE'' (extractPathParameters route))
           (each_entries (endpointArgs endpoint)) = Inr rs"
    and ps': "ps = concat (map (\<lambda>p. case p of Some x \<Rightarrow> [x] | None \<Rightarrow> []) rs)"
    by (auto simp: argParams_def split: sum.splits)
  from traverse_DELETE [OF rs] ps' d show ?thesis by simp
qed

lemma toUpperCase_delete: "toUpperCase ''delete'' = ''DELETE''"
  by (simp add: toUpperCase_def upper_char_def)

theorem delete_descriptor_witness:
  "toUpperCase ''delete'' = ''DELETE'' \<and>
   map_sum id
     (\<lambda>d. (req_body_mode (item_request d), req_body_json (item_request d),
           req_headers (item_request d), map param_name (req_params (item_request d)),
           map param_type (req_params (item_request d))))
     (transformWordPressEndpoint sample_runtime posts_id_route ''delete''
        (JObj [(''args'', JObj [(''id'', JObj []), (''force'', JObj [(''type'', JStr ''boolean'')])])])
        JNull)
     = Inr (''none'', None, [], [JStr ''id''], [Path])"
proof -
  let ?ep = "JObj [(''args'', JObj [(''id'', JObj []), (''force'', JObj [(''type'', JStr ''boolean'')])])]"
  have args: "endpointArgs ?ep = JObj [(''id'', JObj []), (''force'', JObj [(''type'', JStr ''boolean'')])]"
    by (simp add: endpointArgs_def js_or_def lookup_def)
  have "\<exists>d. transformWordPressEndpoint sample_runtime posts_id_route ''delete'' ?ep JNull = Inr d"
    by (rule transform_ok [where bodyJson = None and
          ps = "[\<lparr>param_name = JStr ''id'', param_value = [], param_description = JStr [],
                   param_enabled = True, param_type = Path\<rparr>]"])
       (simp_all add: toUpperCase_delete args path_params_posts_id argParams_def paramFromArg_def
          location_DELETE lookup_def js_or_def)
  then obtain d where
    d: "transformWordPressEndpoint sample_runtime posts_id_route ''delete'' ?ep JNull = Inr d" ..
  from delete_descriptor [OF toUpperCase_delete d] d show ?thesis
    by (simp add: toUpperCase_delete args path_params_posts_id list_all_iff)
       (cases "req_params (item_request d)"; simp)
qed

text \<open>
  The parameter list of a GET list endpoint. For every GET endpoint whose route has no
  \<^verbatim>\<open>(?P<\<close>, the parameter list is the entries made from the arguments, followed by those
  of the five disabled query parameters \<^verbatim>\<open>page\<close>, \<^verbatim>\<open>per_page\<close>, \<^verbatim>\<open>search\<close>, \<^verbatim>\<open>orderby\<close>,
  \<^verbatim>\<open>order\<close> whose name is not the name of an entry already present, followed by the
  disabled query parameter \<^verbatim>\<open>_embed\<close>, whatever the entries before it.
\<close>

lemma list_parameters_appended:
  assumes "toUpperCase method = ''GET''"
    and "\<not> str_includes route ''(?P<''"
    and "transformWordPressEndpoint rt route method endpoint schema = Inr d"
  shows "(\<exists>ps. argParams ''GET'' (extractPathParameters route) (endpointArgs endpoint) = Inr ps \<and>
            req_params (item_request d)
              = ps @ filter (\<lambda>c. param_name c \<notin> param_name ` set ps)
                       (map commonParam commonParams) @ [embedParam]) \<and>
         map (\<lambda>c. (param_name c, param_enabled c, param_type c))
             (map commonParam commonParams @ [embedParam])
           = [(JStr ''page'', False, Query), (JStr ''per_page'', False, Query),
              (JStr ''search'', False, Query), (JStr ''orderby'', False, Query),
              (JStr ''order'', False, Query), (JStr ''_embed'', False, Query)]"
proof -
  from transform_Inr [OF assms(3)] assms(1,2) obtain ps where
    ps: "argParams ''GET'' (extractPathParameters route) (endpointArgs endpoint) = Inr ps"
    and d: "req_params (item_request d) = addCommonParams ps commonParams @ [embedParam]"
    by auto
  from d have "req_params (item_request d)
      = ps @ filter (\<lambda>c. param_name c \<notin> param_name ` set ps)
               (map commonParam commonParams) @ [embedParam]"
    by (simp add: addCommonParams_filter [OF common_distinct])
  with ps have first: "\<exists>ps. argParams ''GET'' (extractPathParameters route) (endpointArgs endpoint)
              = Inr ps \<and>
            req_params (item_request d)
              = ps @ filter (\<lambda>c. param_name c \<notin> param_name ` set ps)
                       (map commonParam commonParams) @ [embedParam]"
    by blast
  have second: "map (\<lambda>c. (param_name c, param_enabled c, param_type c))
             (map commonParam commonParams @ [embedParam])
           = [(JStr ''page'', False, Query), (JStr ''per_page'', False, Query),
              (JStr ''search'', False, Query), (JStr ''orderby'', False, Query),
              (JStr ''order'', False, Query), (JStr ''_embed'', False, Query)]"
    by (simp add: commonParams_def commonParam_def embedParam_def)
  from first second show ?thesis by (rule conjI)
qed

lemma toUpperCase_get: "toUpperCase ''get'' = ''GET''"
  by (simp add: toUpperCase_def upper_char_def)

lemma location_GET:
  "getParameterLocation ''GET'' k pp = (if includes_name pp k then Path else Query)"
  by (simp add: getParameterLocation_def toUpperCase_GET)

lemma path_params_posts: "extractPathParameters ''/wp/v2/posts'' = []"
  by (simp add: extractPathParameters_def match_group_def)

lemma plain_arg_param:
  "paramFromArg ''GET'' [] (JStr n, JObj []) =
     Inr (if n = ''context'' then None
          else Some \<lparr>param_name = JStr n, param_value = [], param_description = JStr [],
                  param_enabled = False, param_type = Query\<rparr>)"
  by (simp add: paramFromArg_def location_GET lookup_def and_then_def isParameterRequired_def
      extractValidationConstraints_def supportedConstraints_def queryDescription_def js_or_def)

lemma list_parameters_appended_example:
  "toUpperCase ''get'' = ''GET'' \<and> \<not> str_includes ''/wp/v2/posts'' ''(?P<'' \<and>
   map_sum id (\<lambda>d. map param_name (req_params (item_request d)))
     (transformWordPressEndpoint sample_runtime ''/wp/v2/posts'' ''get''
        (JObj [(''args'', JObj [(''order'', JObj []), (''page'', JObj [])])]) JNull)
     = Inr [JStr ''order'', JStr ''page'', JStr ''per_page'', JStr ''search'', JStr ''orderby'',
            JStr ''_embed'']"
proof -
  let ?ep = "JObj [(''args'', JObj [(''order'', JObj []), (''page'', JObj [])])]"
  let ?ps = "[\<lparr>param_name = JStr ''order'', param_value = [], param_description = JStr [],
               param_enabled = False, param_type = Query\<rparr>,
             \<lparr>param_name = JStr ''page'', param_value = [], param_description = JStr [],
               param_enabled = False, param_type = Query\<rparr>]"
  have args: "endpointArgs ?ep = JObj [(''order'', JObj []), (''page'', JObj [])]"
    by (simp add: endpointArgs_def js_or_def lookup_def)
  have ap: "argParams ''GET'' [] (JObj [(''order'', JObj []), (''page'', JObj [])]) = Inr ?ps"
    by (simp add: argParams_def plain_arg_param)
  have noid: "\<not> str_includes ''/wp/v2/posts'' ''(?P<''" by simp
  have "\<exists>d. transformWordPressEndpoint sample_runtime ''/wp/v2/posts'' ''get'' ?ep JNull = Inr d"
    by (rule transform_ok [where bodyJson = None and ps = ?ps])
       (simp_all add: toUpperCase_get args path_params_posts ap)
  then obtain d where
    d: "transformWordPressEndpoint sample_runtime ''/wp/v2/posts'' ''get'' ?ep JNull = Inr d" ..
  from list_parameters_appended [OF toUpperCase_get noid d] d noid show ?thesis
    by (simp add: toUpperCase_get args path_params_posts ap commonParams_def commonParam_def
        embedParam_def)
qed

text \<open>
  C6. For every GET endpoint whose route has no path identifier, each of the six
  disabled query parameters \<^verbatim>\<open>page\<close>, \<^verbatim>\<open>per_page\<close>, \<^verbatim>\<open>search\<close>, \<^verbatim>\<open>orderby\<close>, \<^verbatim>\<open>order\<close> and
  \<^verbatim>\<open>_embed\<close> is to be appended only when no parameter of that name is present. The
  transformer checks this for the first five and misses it for \<^verbatim>\<open>_embed\<close>: for the GET
  endpoint \<^verbatim>\<open>/wp/v2/posts\<close> whose one argument is named \<^verbatim>\<open>_embed\<close>, the parameter list
  holds the entry made from the argument and, last, a second entry named \<^verbatim>\<open>_embed\<close>.
\<close>

theorem embed_parameter_duplicated:
  "map_sum id (\<lambda>d. map param_name (req_params (item_request d)))
     (transformWordPressEndpoint sample_runtime ''/wp/v2/posts'' ''GET''
        (JObj [(''args'', JObj [(''_embed'', JObj [])])]) JNull)
     = Inr [JStr ''_embed'', JStr ''page'', JStr ''per_page'', JStr ''search'', JStr ''orderby'',
            JStr ''order'', JStr ''_embed'']"
proof -
  have ap: "argParams ''GET'' [] (JObj [(''_embed'', JObj [])])
     = Inr [\<lparr>param_name = JStr ''_embed'', param_value = [], param_description = JStr [],
               param_enabled = False, param_type = Query\<rparr>]"
    by (simp add: argParams_def plain_arg_param)
  show ?thesis
    by (simp add: transformWordPressEndpoint_def Let_def and_then_def toUpperCase_GET
        endpointArgs_def js_or_def lookup_def path_params_posts ap commonParams_def commonParam_def
        embedParam_def)
qed

section \<open>The example value synthesizer\<close>

lemma each_entries_plain:
  assumes "plain_mapping props"
  shows "each_entries (JObj props) = map (\<lambda>(k, v). (JStr k, v)) props"
proof -
  from assms have "case lookup props ''length'' of JNum n \<Rightarrow> False | _ \<Rightarrow> True"
    by (simp add: plain_mapping_def)
  then show ?thesis
    by (cases "map_of props ''length''") (auto simp: lookup_def split: jsval.splits)
qed

lemma obj_set_new: "k \<notin> fst ` set obj \<Longrightarrow> obj_set obj k v = obj @ [(k, v)]"
  by (induction obj) auto

lemma from_entries_distinct_aux:
  "distinct (map fst kvs) \<Longrightarrow> fst ` set kvs \<inter> fst ` set acc = {} \<Longrightarrow>
   foldl (\<lambda>obj (k, v). obj_set obj (to_key k) v) acc (map (\<lambda>(k, v). (JStr k, v)) kvs) = acc @ kvs"
proof (induction kvs arbitrary: acc)
  case Nil
  show ?case by simp
next
  case (Cons kv kvs)
  obtain k v where kv: "kv = (k, v)" by (cases kv)
  from Cons.prems kv have new: "k \<notin> fst ` set acc" by auto
  from Cons.prems kv have "distinct (map fst kvs)"
    and "fst ` set kvs \<inter> fst ` set (acc @ [(k, v)]) = {}" by auto
  then have "foldl (\<lambda>obj (k, v). obj_set obj (to_key k) v) (acc @ [(k, v)])
                (map (\<lambda>(k, v). (JStr k, v)) kvs) = (acc @ [(k, v)]) @ kvs"
    by (rule Cons.IH)
  with new show ?case by (simp add: kv obj_set_new)
qed

lemma from_entries_distinct:
  "distinct (map fst kvs) \<Longrightarrow> from_entries (map (\<lambda>(k, v). (JStr k, v)) kvs) = kvs"
  using from_entries_distinct_aux [of kvs "[]"] by (simp add: from_entries_def)

lemma traverse_entries:
  "traverse (\<lambda>(propName, prop).
               case g prop propName of Inl e \<Rightarrow> Inl e | Inr v \<Rightarrow> Inr (propName, v))
            (map (\<lambda>(k, v). (JStr k, v)) props)
   = (case traverse (\<lambda>(k, p). g p (JStr k)) props of
        Inl e \<Rightarrow> Inl e
      | Inr vs \<Rightarrow> Inr (map (\<lambda>(k, v). (JStr k, v)) (zip (map fst props) vs)))"
  by (induction props) (auto split: sum.splits)

lemma traverse_length: "traverse f xs = Inr ys \<Longrightarrow> length ys = length xs"
  by (induction xs arbitrary: ys) (auto split: sum.splits)

lemma enum_absent:
  "e = JUndefined \<or> e = JArr [] \<Longrightarrow> enum_nonempty rt e = Inr False"
  by (auto simp: enum_nonempty_def)

lemma gen_enum:
  "lookup kvs ''enum'' = JArr (x # xs) \<Longrightarrow> generateExampleValue rt (JObj kvs) name = Inr x"
  by (subst generateExampleValue.simps) (simp add: enum_nonempty_def)

lemma gen_default:
  "lookup kvs ''enum'' = JUndefined \<or> lookup kvs ''enum'' = JArr [] \<Longrightarrow>
   lookup kvs ''default'' \<noteq> JUndefined \<Longrightarrow>
   generateExampleValue rt (JObj kvs) name = Inr (lookup kvs ''default'')"
  by (subst generateExampleValue.simps) (simp add: enum_absent)

lemma gen_primitive:
  assumes "lookup kvs ''enum'' = JUndefined \<or> lookup kvs ''enum'' = JArr []"
    and "lookup kvs ''default'' = JUndefined"
  shows "normalizeWordPressType (js_or (lookup kvs ''type'') (JStr ''string'')) = Inr (JStr ''integer'')
           \<Longrightarrow> generateExampleValue rt (JObj kvs) name = Inr (JNum 0)"
    and "normalizeWordPressType (js_or (lookup kvs ''type'') (JStr ''string'')) = Inr (JStr ''number'')
           \<Longrightarrow> generateExampleValue rt (JObj kvs) name = Inr (JNum 0)"
    and "normalizeWordPressType (js_or (lookup kvs ''type'') (JStr ''string'')) = Inr (JStr ''boolean'')
           \<Longrightarrow> generateExampleValue rt (JObj kvs) name = Inr (JBool False)"
    and "normalizeWordPressType (js_or (lookup kvs ''type'') (JStr ''string'')) = Inr (JStr ''array'')
           \<Longrightarrow> generateExampleValue rt (JObj kvs) name = Inr (JArr [])"
  using assms
  by (subst generateExampleValue.simps, simp add: enum_absent Let_def)+

lemma gen_object:
  assumes "lookup kvs ''enum'' = JUndefined \<or> lookup kvs ''enum'' = JArr []"
    and "lookup kvs ''default'' = JUndefined"
    and "normalizeWordPressType
           (js_or (lookup kvs ''type'') (JStr ''string''))
         = Inr (JStr ''object'')"
  shows "lookup kvs ''properties'' = JUndefined \<Longrightarrow>
           generateExampleValue rt (JObj kvs) name = Inr (JObj [])"
    and "lookup kvs ''properties'' = JObj props \<Longrightarrow> plain_mapping props \<Longrightarrow>
           generateExampleValue rt (JObj kvs) name =
             (case traverse (\<lambda>(k, p). generateExampleValue rt p (JStr k)) props of
                Inl e \<Rightarrow> Inl e
              | Inr vs \<Rightarrow> Inr (JObj (zip (map fst props) vs)))"
proof -
  assume "lookup kvs ''properties'' = JUndefined"
  with assms show "generateExampleValue rt (JObj kvs) name = Inr (JObj [])"
    by (subst generateExampleValue.simps) (simp add: enum_absent Let_def)
next
  assume p: "lookup kvs ''properties'' = JObj props" and pm: "plain_mapping props"
  have z: "\<And>vs. length vs = length props \<Longrightarrow>
      from_entries (map (\<lambda>(k, v). (JStr k, v)) (zip (map fst props) vs)) = zip (map fst props) vs"
    using pm by (intro from_entries_distinct) (simp add: plain_mapping_def)
  show "generateExampleValue rt (JObj kvs) name =
             (case traverse (\<lambda>(k, p). generateExampleValue rt p (JStr k)) props of
                Inl e \<Rightarrow> Inl e
              | Inr vs \<Rightarrow> Inr (JObj (zip (map fst props) vs)))"
    using assms p
    by (subst generateExampleValue.simps)
       (auto simp: enum_absent Let_def each_entries_plain [OF pm] traverse_entries z
          simp del: each_entries.simps dest: traverse_length split: sum.splits)
qed

text \<open>
  C3. For every field definition (an object) and field name, the synthesizer obeys this
  precedence. (1) If the enum is a non-empty list, the result is its first element.
  (2) Otherwise (the enum is absent or empty), if a default is present, falsy or not, the
  result is that default. (3) Otherwise the result follows the normalized type: 0 for
  \<^verbatim>\<open>integer\<close> and for \<^verbatim>\<open>number\<close>, \<^verbatim>\<open>false\<close> for \<^verbatim>\<open>boolean\<close>, the empty list for
  \<^verbatim>\<open>array\<close>, and for \<^verbatim>\<open>object\<close> the empty mapping when there are no nested properties and
  otherwise the mapping that gives every nested property, under its name, the value
  synthesized for it (or the exception that the first failing nested property raises).
\<close>

theorem example_value_precedence:
  "(lookup kvs ''enum'' = JArr (x # xs) \<longrightarrow> generateExampleValue rt (JObj kvs) name = Inr x) \<and>
   ((lookup kvs ''enum'' = JUndefined \<or> lookup kvs ''enum'' = JArr []) \<longrightarrow>
      (lookup kvs ''default'' \<noteq> JUndefined \<longrightarrow>
         generateExampleValue rt (JObj kvs) name = Inr (lookup kvs ''default'')) \<and>
      (lookup kvs ''default'' = JUndefined \<longrightarrow>
         (let nt = normalizeWordPressType
                     (js_or (lookup kvs ''type'') (JStr ''string''))
          in (nt = Inr (JStr ''integer'') \<longrightarrow> generateExampleValue rt (JObj kvs) name = Inr (JNum 0)) \<and>
             (nt = Inr (JStr ''number'') \<longrightarrow> generateExampleValue rt (JObj kvs) name = Inr (JNum 0)) \<and>
             (nt = Inr (JStr ''boolean'') \<longrightarrow>
                generateExampleValue rt (JObj kvs) name = Inr (JBool False)) \<and>
             (nt = Inr (JStr ''array'') \<longrightarrow> generateExampleValue rt (JObj kvs) name = Inr (JArr [])) \<and>
             (nt = Inr (JStr ''object'') \<longrightarrow>
                (lookup kvs ''properties'' = JUndefined \<longrightarrow>
                   generateExampleValue rt (JObj kvs) name = Inr (JObj [])) \<and>
                (\<forall>props. lookup kvs ''properties'' = JObj props \<and> plain_mapping props \<longrightarrow>
                   generateExampleValue rt (JObj kvs) name =
                     (case traverse (\<lambda>(k, p). generateExampleValue rt p (JStr k)) props of
                        Inl e \<Rightarrow> Inl e
                      | Inr vs \<Rightarrow> Inr (JObj (zip (map fst props) vs))))))))"
proof (intro conjI impI)
  assume "lookup kvs ''enum'' = JArr (x # xs)"
  then show "generateExampleValue rt (JObj kvs) name = Inr x" by (rule gen_enum)
next
  assume "lookup kvs ''enum'' = JUndefined \<or> lookup kvs ''enum'' = JArr []"
    and "lookup kvs ''default'' \<noteq> JUndefined"
  then show "generateExampleValue rt (JObj kvs) name = Inr (lookup kvs ''default'')"
    by (rule gen_default)
next
  assume e: "lookup kvs ''enum'' = JUndefined \<or> lookup kvs ''enum'' = JArr []"
    and d: "lookup kvs ''default'' = JUndefined"
  show "let nt = normalizeWordPressType
                     (js_or (lookup kvs ''type'') (JStr ''string''))
          in (nt = Inr (JStr ''integer'') \<longrightarrow> generateExampleValue rt (JObj kvs) name = Inr (JNum 0)) \<and>
             (nt = Inr (JStr ''number'') \<longrightarrow> generateExampleValue rt (JObj kvs) name = Inr (JNum 0)) \<and>
             (nt = Inr (JStr ''boolean'') \<longrightarrow>
                generateExampleValue rt (JObj kvs) name = Inr (JBool False)) \<and>
             (nt = Inr (JStr ''array'') \<longrightarrow> generateExampleValue rt (JObj kvs) name = Inr (JArr [])) \<and>
             (nt = Inr (JStr ''object'') \<longrightarrow>
                (lookup kvs ''properties'' = JUndefined \<longrightarrow>
                   generateExampleValue rt (JObj kvs) name = Inr (JObj [])) \<and>
                (\<forall>props. lookup kvs ''properties'' = JObj props \<and> plain_mapping props \<longrightarrow>
                   generateExampleValue rt (JObj kvs) name =
                     (case traverse (\<lambda>(k, p). generateExampleValue rt p (JStr k)) props of
                        Inl e \<Rightarrow> Inl e
                      | Inr vs \<Rightarrow> Inr (JObj (zip (map fst props) vs)))))"
    unfolding Let_def
  proof (intro conjI impI allI)
    assume "normalizeWordPressType
       (js_or (lookup kvs ''type'') (JStr ''string''))
       = Inr (JStr ''integer'')"
    then show "generateExampleValue rt (JObj kvs) name = Inr (JNum 0)"
      using gen_primitive [OF e d] by blast
  next
    assume "normalizeWordPressType
       (js_or (lookup kvs ''type'') (JStr ''string''))
       = Inr (JStr ''number'')"
    then show "generateExampleValue rt (JObj kvs) name = Inr (JNum 0)"
      using gen_primitive [OF e d] by blast
  next
    assume "normalizeWordPressType
       (js_or (lookup kvs ''type'') (JStr ''string''))
       = Inr (JStr ''boolean'')"
    then show "generateExampleValue rt (JObj kvs) name = Inr (JBool False)"
      using gen_primitive [OF e d] by blast
  next
    assume "normalizeWordPressType
       (js_or (lookup kvs ''type'') (JStr ''string''))
       = Inr (JStr ''array'')"
    then show "generateExampleValue rt (JObj kvs) name = Inr (JArr [])"
      using gen_primitive [OF e d] by blast
  next
    assume "normalizeWordPressType
       (js_or (lookup kvs ''type'') (JStr ''string''))
       = Inr (JStr ''object'')"
      and "lookup kvs ''properties'' = JUndefined"
    then show "generateExampleValue rt (JObj kvs) name = Inr (JObj [])"
      by (rule gen_object(1) [OF e d])
  next
    fix props
    assume "normalizeWordPressType
       (js_or (lookup kvs ''type'') (JStr ''string''))
       = Inr (JStr ''object'')"
      and "lookup kvs ''properties'' = JObj props \<and> plain_mapping props"
    then show "generateExampleValue rt (JObj kvs) name =
                     (case traverse (\<lambda>(k, p). generateExampleValue rt p (JStr k)) props of
                        Inl e \<Rightarrow> Inl e
                      | Inr vs \<Rightarrow> Inr (JObj (zip (map fst props) vs)))"
      using gen_object(2) [OF e d] by blast
  qed
qed

theorem example_value_precedence_witness:
  "generateExampleValue sample_runtime
     (JObj [(''type'', JStr ''string''), (''enum'', JArr [JStr ''publish'', JStr ''draft'']),
            (''default'', JStr ''draft'')]) (JStr ''status'') = Inr (JStr ''publish'') \<and>
   generateExampleValue sample_runtime
     (JObj [(''type'', JStr ''boolean''), (''default'', JBool False)]) (JStr ''sticky'')
     = Inr (JBool False) \<and>
   generateExampleValue sample_runtime
     (JObj [(''type'', JStr ''integer''), (''enum'', JArr []), (''default'', JNum 0)])
     (JStr ''author'') = Inr (JNum 0) \<and>
   generateExampleValue sample_runtime (JObj [(''type'', JStr ''bool'')]) (JStr ''sticky'')
     = Inr (JBool False) \<and>
   generateExampleValue sample_runtime (JObj [(''type'', JStr ''array'')]) (JStr ''tags'')
     = Inr (JArr []) \<and>
   generateExampleValue sample_runtime (JObj [(''type'', JStr ''object'')]) (JStr ''meta'')
     = Inr (JObj []) \<and>
   generateExampleValue sample_runtime
     (JObj [(''type'', JStr ''object''),
            (''properties'', JObj [(''title'', JObj [(''type'', JStr ''string'')]),
                                   (''count'', JObj [(''type'', JStr ''integer'')])])])
     (JStr ''meta'')
     = Inr (JObj [(''title'', JStr ''Example Title''), (''count'', JNum 0)])"
proof -
  let ?props = "[(''title'', JObj [(''type'', JStr ''string'')]),
                 (''count'', JObj [(''type'', JStr ''integer'')])]"
  have nt:
    "normalizeWordPressType (js_or (JStr ''bool'') (JStr ''string'')) = Inr (JStr ''boolean'')"
    "normalizeWordPressType (js_or (JStr ''integer'') (JStr ''string'')) = Inr (JStr ''integer'')"
    "normalizeWordPressType (js_or (JStr ''array'') (JStr ''string'')) = Inr (JStr ''array'')"
    "normalizeWordPressType (js_or (JStr ''object'') (JStr ''string'')) = Inr (JStr ''object'')"
    "normalizeWordPressType (js_or (JStr ''string'') (JStr ''string'')) = Inr (JStr ''string'')"
    by (simp_all add: js_or_def typeReplacements_def)
  have title: "generateExampleValue sample_runtime (JObj [(''type'', JStr ''string'')])
                 (JStr ''title'') = Inr (JStr ''Example Title'')"
    by (subst generateExampleValue.simps) (simp add: enum_nonempty_def lookup_def nt)
  have pm: "plain_mapping ?props" by (simp add: plain_mapping_def lookup_def)
  note enum_rule = example_value_precedence [THEN conjunct1, THEN mp]
  note default_rule =
    example_value_precedence [THEN conjunct2, THEN mp, THEN conjunct1, THEN mp]
  note type_rule =
    example_value_precedence [THEN conjunct2, THEN mp, THEN conjunct2, THEN mp, unfolded Let_def]
  have c1: "generateExampleValue sample_runtime
     (JObj [(''type'', JStr ''string''), (''enum'', JArr [JStr ''publish'', JStr ''draft'']),
            (''default'', JStr ''draft'')]) (JStr ''status'') = Inr (JStr ''publish'')"
    by (rule enum_rule) (simp add: lookup_def)
  have c2: "generateExampleValue sample_runtime
     (JObj [(''type'', JStr ''boolean''), (''default'', JBool False)]) (JStr ''sticky'')
     = Inr (lookup [(''type'', JStr ''boolean''), (''default'', JBool False)] ''default'')"
    by (rule default_rule) (simp_all add: lookup_def)
  have c3: "generateExampleValue sample_runtime
     (JObj [(''type'', JStr ''integer''), (''enum'', JArr []), (''default'', JNum 0)])
     (JStr ''author'')
     = Inr (lookup [(''type'', JStr ''integer''), (''enum'', JArr []), (''default'', JNum 0)]
              ''default'')"
    by (rule default_rule) (simp_all add: lookup_def)
  have c4: "generateExampleValue sample_runtime (JObj [(''type'', JStr ''bool'')]) (JStr ''sticky'')
     = Inr (JBool False)"
    by (rule type_rule [THEN conjunct2, THEN conjunct2, THEN conjunct1, THEN mp])
       (simp_all add: lookup_def nt)
  have c5: "generateExampleValue sample_runtime (JObj [(''type'', JStr ''array'')]) (JStr ''tags'')
     = Inr (JArr [])"
    by (rule type_rule [THEN conjunct2, THEN conjunct2, THEN conjunct2, THEN conjunct1, THEN mp])
       (simp_all add: lookup_def nt)
  note object_rule =
    type_rule [THEN conjunct2, THEN conjunct2, THEN conjunct2, THEN conjunct2, THEN mp]
  have c6: "generateExampleValue sample_runtime (JObj [(''type'', JStr ''object'')]) (JStr ''meta'')
     = Inr (JObj [])"
    by (rule object_rule [THEN conjunct1, THEN mp]) (simp_all add: lookup_def nt)
  have count: "generateExampleValue sample_runtime (JObj [(''type'', JStr ''integer'')])
                 (JStr ''count'') = Inr (JNum 0)"
    by (rule type_rule [THEN conjunct1, THEN mp]) (simp_all add: lookup_def nt)
  have "generateExampleValue sample_runtime
     (JObj [(''type'', JStr ''object''), (''properties'', JObj ?props)]) (JStr ''meta'')
     = (case traverse (\<lambda>(k, p). generateExampleValue sample_runtime p (JStr k)) ?props of
          Inl e \<Rightarrow> Inl e
        | Inr vs \<Rightarrow> Inr (JObj (zip (map fst ?props) vs)))"
    by (rule object_rule [THEN conjunct2, THEN spec, THEN mp])
       (simp_all add: lookup_def nt pm)
  then have c7: "generateExampleValue sample_runtime
     (JObj [(''type'', JStr ''object''), (''properties'', JObj ?props)]) (JStr ''meta'')
     = Inr (JObj [(''title'', JStr ''Example Title''), (''count'', JNum 0)])"
    by (simp add: title count)
  from c1 c2 c3 c4 c5 c6 c7 show ?thesis by (simp add: lookup_def)
qed

lemma js_gt0_runtime:
  assumes "string_gt0 rt1 = string_gt0 rt2"
  shows "js_gt0 rt1 v = js_gt0 rt2 v"
proof (cases v)
  case (JArr xs)
  show ?thesis unfolding JArr js_gt0.simps assms ..
next
  case (JObj kvs)
  show ?thesis unfolding JObj js_gt0.simps assms ..
qed (simp_all add: assms)

lemma enum_nonempty_runtime:
  "string_gt0 rt1 = string_gt0 rt2 \<Longrightarrow> enum_nonempty rt1 e = enum_nonempty rt2 e"
  by (simp add: enum_nonempty_def js_gt0_runtime [of rt1 rt2])

lemma unset_runtime: "string_gt0 rt1 = string_gt0 rt2 \<Longrightarrow> unset rt1 p = unset rt2 p"
  by (simp add: unset_def enum_nonempty_runtime [of rt1 rt2])

text \<open>
  C9, as amended. The synthesizer is deterministic: two calls with equal field
  definitions and the same field name, made at different times, return equal results,
  except for a field that is time dependent: a field with the \<^verbatim>\<open>date-time\<close> format and
  neither a non-empty enum nor a default, or an object-typed field with neither a
  non-empty enum nor a default that nests a time-dependent field among its properties.
  The two calls run on the same engine, so they agree on the comparison of strings with
  zero.
\<close>

theorem example_value_deterministic:
  assumes "string_gt0 rt1 = string_gt0 rt2" and "\<not> time_dependent rt1 p"
  shows "generateExampleValue rt1 p name = generateExampleValue rt2 p name"
  using assms(2)
proof (induction p arbitrary: name rule: measure_induct_rule [of size])
  case (less p)
  have td: "time_dependent rt1 p =
          (clock_case rt1 p \<or>
           (unset rt1 p \<and> object_typed p \<and>
            list_ex (\<lambda>(k, q). time_dependent rt1 q) (each_entries (js_prop p ''properties''))))"
    by (rule time_dependent.simps)
  have en: "enum_nonempty rt2 (js_prop p ''enum'') = enum_nonempty rt1 (js_prop p ''enum'')"
    by (rule enum_nonempty_runtime [OF assms(1), symmetric])
  note unfold = generateExampleValue.simps [of rt1 p name] generateExampleValue.simps [of rt2 p name]
  show ?case
  proof (cases "unset rt1 p")
    case False
    show ?thesis
    proof (cases "nullish p")
      case True
      then show ?thesis by (simp add: unfold)
    next
      case nn: False
      show ?thesis
      proof (cases "enum_nonempty rt1 (js_prop p ''enum'')")
        case (Inl e)
        with nn show ?thesis by (simp add: unfold en)
      next
        case (Inr b)
        show ?thesis
        proof (cases b)
          case True
          with nn Inr show ?thesis by (simp add: unfold en)
        next
          case nb: False
          with False nn Inr have "js_prop p ''default'' \<noteq> JUndefined"
            by (simp add: unset_def)
          with nn Inr nb show ?thesis by (simp add: unfold en)
        qed
      qed
    qed
  next
    case True
    then have nn: "\<not> nullish p" and e1: "enum_nonempty rt1 (js_prop p ''enum'') = Inr False"
      and d: "js_prop p ''default'' = JUndefined"
      by (simp_all add: unset_def)
    from True less.prems td have fmt: "js_prop p ''format'' \<noteq> JStr ''date-time''"
      by (auto simp: clock_case_def)
    show ?thesis
    proof (cases "normalizeWordPressType (js_or (js_prop p ''type'') (JStr ''string''))")
      case (Inl e)
      with nn e1 d show ?thesis by (simp add: unfold en)
    next
      case (Inr nt)
      show ?thesis
      proof (cases "nt = JStr ''object''")
        case obj: True
        with Inr have "object_typed p" by (simp add: object_typed_def)
        with True less.prems td have
          nested: "\<not> list_ex (\<lambda>(k, q). time_dependent rt1 q)
                         (each_entries (js_prop p ''properties''))"
          by blast
        have tr: "traverse (\<lambda>(propName, prop).
                       case generateExampleValue rt1 prop propName of
                         Inl e \<Rightarrow> Inl e | Inr v \<Rightarrow> Inr (propName, v))
                    (each_entries (js_prop p ''properties''))
                = traverse (\<lambda>(propName, prop).
                       case generateExampleValue rt2 prop propName of
                         Inl e \<Rightarrow> Inl e | Inr v \<Rightarrow> Inr (propName, v))
                    (each_entries (js_prop p ''properties''))"
        proof (rule traverse_cong [OF refl])
          fix e assume e: "e \<in> set (each_entries (js_prop p ''properties''))"
          obtain k q where kq: "e = (k, q)" by (cases e)
          from e kq have "size q < size p" by (auto dest: prop_entries_size)
          moreover from e kq nested have "\<not> time_dependent rt1 q" by (auto simp: list_ex_iff)
          ultimately have "generateExampleValue rt1 q k = generateExampleValue rt2 q k"
            by (rule less.IH)
          then show "(case e of (propName, prop) \<Rightarrow>
                       case generateExampleValue rt1 prop propName of
                         Inl e \<Rightarrow> Inl e | Inr v \<Rightarrow> Inr (propName, v))
                   = (case e of (propName, prop) \<Rightarrow>
                       case generateExampleValue rt2 prop propName of
                         Inl e \<Rightarrow> Inl e | Inr v \<Rightarrow> Inr (propName, v))"
            by (simp add: kq)
        qed
        from nn e1 d Inr obj show ?thesis by (simp add: unfold en tr)
      next
        case False
        with nn e1 d Inr fmt show ?thesis by (simp add: unfold en)
      qed
    qed
  qed
qed

theorem example_value_deterministic_witness:
  "string_gt0 sample_runtime = string_gt0 later_runtime \<and>
   date_now sample_runtime \<noteq> date_now later_runtime \<and>
   \<not> time_dependent sample_runtime
       (JObj [(''type'', JStr ''object''),
              (''properties'',
               JObj [(''slug'', JObj [(''type'', JStr ''string'')]),
                     (''date'', JObj [(''type'', JStr ''string''),
                                      (''format'', JStr ''date-time''),
                                      (''default'', JNull)])])]) \<and>
   generateExampleValue sample_runtime
       (JObj [(''type'', JStr ''object''),
              (''properties'',
               JObj [(''slug'', JObj [(''type'', JStr ''string'')]),
                     (''date'', JObj [(''type'', JStr ''string''),
                                      (''format'', JStr ''date-time''),
                                      (''default'', JNull)])])]) (JStr ''meta'')
     = generateExampleValue later_runtime
       (JObj [(''type'', JStr ''object''),
              (''properties'',
               JObj [(''slug'', JObj [(''type'', JStr ''string'')]),
                     (''date'', JObj [(''type'', JStr ''string''),
                                      (''format'', JStr ''date-time''),
                                      (''default'', JNull)])])]) (JStr ''meta'')"
proof -
  let ?slug = "JObj [(''type'', JStr ''string'')]"
  let ?date = "JObj [(''type'', JStr ''string''), (''format'', JStr ''date-time''),
                     (''default'', JNull)]"
  let ?p = "JObj [(''type'', JStr ''object''),
                  (''properties'', JObj [(''slug'', ?slug), (''date'', ?date)])]"
  have h1: "string_gt0 sample_runtime = string_gt0 later_runtime"
    by (simp add: sample_runtime_def later_runtime_def)
  have d: "date_now sample_runtime \<noteq> date_now later_runtime"
    by (simp add: sample_runtime_def later_runtime_def)
  have l1: "\<not> time_dependent sample_runtime ?slug"
    by (subst time_dependent.simps)
       (simp add: clock_case_def object_typed_def lookup_def js_or_def typeReplacements_def)
  have l2: "\<not> time_dependent sample_runtime ?date"
    by (subst time_dependent.simps) (simp add: clock_case_def unset_def lookup_def)
  have h2: "\<not> time_dependent sample_runtime ?p"
    by (subst time_dependent.simps) (simp add: clock_case_def lookup_def l1 l2)
  from example_value_deterministic [OF h1 h2] h1 d h2 show ?thesis by blast
qed

lemma date_time_example:
  "generateExampleValue rt (JObj [(''type'', JStr ''string''), (''format'', JStr ''date-time'')])
     (JStr ''modified'') = Inr (JStr (date_now rt))"
  by (subst generateExampleValue.simps)
     (simp add: enum_nonempty_def lookup_def js_or_def typeReplacements_def)

text \<open>
  The claim as first stated excepts only a field that itself has the \<^verbatim>\<open>date-time\<close>
  format. An object-typed field without a format, whose property \<^verbatim>\<open>modified\<close> has that
  format, is outside the exception, and its value holds the time of the call.
\<close>

theorem example_value_nested_date_counterexample:
  "string_gt0 sample_runtime = string_gt0 later_runtime \<and>
   \<not> clock_case sample_runtime
       (JObj [(''type'', JStr ''object''),
              (''properties'',
               JObj [(''modified'', JObj [(''type'', JStr ''string''),
                                          (''format'', JStr ''date-time'')])])]) \<and>
   generateExampleValue sample_runtime
       (JObj [(''type'', JStr ''object''),
              (''properties'',
               JObj [(''modified'', JObj [(''type'', JStr ''string''),
                                          (''format'', JStr ''date-time'')])])]) (JStr ''meta'')
     = Inr (JObj [(''modified'', JStr ''2024-01-01T00:00:00.000Z'')]) \<and>
   generateExampleValue later_runtime
       (JObj [(''type'', JStr ''object''),
              (''properties'',
               JObj [(''modified'', JObj [(''type'', JStr ''string''),
                                          (''format'', JStr ''date-time'')])])]) (JStr ''meta'')
     = Inr (JObj [(''modified'', JStr ''2031-05-05T12:00:00.000Z'')]) \<and>
   generateExampleValue sample_runtime
       (JObj [(''type'', JStr ''object''),
              (''properties'',
               JObj [(''modified'', JObj [(''type'', JStr ''string''),
                                          (''format'', JStr ''date-time'')])])]) (JStr ''meta'')
     \<noteq> generateExampleValue later_runtime
       (JObj [(''type'', JStr ''object''),
              (''properties'',
               JObj [(''modified'', JObj [(''type'', JStr ''string''),
                                          (''format'', JStr ''date-time'')])])]) (JStr ''meta'')"
proof -
  let ?p = "JObj [(''type'', JStr ''object''),
              (''properties'',
               JObj [(''modified'', JObj [(''type'', JStr ''string''),
                                          (''format'', JStr ''date-time'')])])]"
  have g: "\<And>rt. generateExampleValue rt ?p (JStr ''meta'')
             = Inr (JObj [(''modified'', JStr (date_now rt))])"
    by (subst generateExampleValue.simps)
       (simp add: enum_nonempty_def lookup_def js_or_def typeReplacements_def
          indexed_entries_def from_entries_def date_time_example)
  have "\<not> clock_case sample_runtime ?p" by (simp add: clock_case_def lookup_def)
  then show ?thesis
    by (simp add: g sample_runtime_def later_runtime_def)
qed

section \<open>The request body composer\<close>

lemma obj_set_keys: "fst ` set (obj_set body k v) = insert k (fst ` set body)"
proof (induction body)
  case Nil
  show ?case by simp
next
  case (Cons p body)
  obtain k' v' where p: "p = (k', v')" by (cases p)
  show ?case
  proof (cases "k' = k")
    case True
    with p show ?thesis by simp
  next
    case False
    with p Cons.IH show ?thesis by (simp add: insert_commute)
  qed
qed

lemma argsPass_keys:
  "argsPass rt method pathParams es body = Inr body' \<Longrightarrow> k \<in> fst ` set body' \<Longrightarrow>
   k \<in> fst ` set body \<or>
   list_ex (\<lambda>(argName, arg).
              to_key argName = k \<and> argName \<noteq> JStr ''context'' \<and>
              \<not> includes_name pathParams argName \<and> js_prop arg ''readonly'' \<noteq> JBool True) es"
proof (induction es arbitrary: body)
  case Nil
  then show ?case by simp
next
  case (Cons e es)
  obtain argName arg where e: "e = (argName, arg)" by (cases e)
  show ?case
  proof (cases "argName = JStr ''context'' \<or> includes_name pathParams argName \<or>
                js_prop arg ''readonly'' = JBool True \<or>
                getParameterLocation method argName pathParams \<noteq> Body")
    case True
    with Cons.prems e have "argsPass rt method pathParams es body = Inr body'"
      by (auto split: if_splits)
    from Cons.IH [OF this Cons.prems(2)] show ?thesis by auto
  next
    case False
    with Cons.prems e obtain v where
      rest: "argsPass rt method pathParams es (obj_set body (to_key argName) v) = Inr body'"
      by (auto simp: Let_def split: if_splits sum.splits)
    from Cons.IH [OF rest Cons.prems(2)] False e show ?thesis
      by (auto simp: obj_set_keys)
  qed
qed

lemma schemaPass_keys:
  "schemaPass rt es body = Inr body' \<Longrightarrow> k \<in> fst ` set body' \<Longrightarrow>
   k \<in> fst ` set body \<or>
   (k \<in> set commonFields \<and>
    list_ex (\<lambda>(name, property). name = JStr k \<and> js_prop property ''readonly'' \<noteq> JBool True) es)"
proof (induction es arbitrary: body)
  case Nil
  then show ?case by simp
next
  case (Cons e es)
  obtain name property where e: "e = (name, property)" by (cases e)
  show ?case
  proof (cases "lookup body (to_key name) \<noteq> JUndefined \<or>
                js_prop property ''readonly'' = JBool True \<or> \<not> includes_name commonFields name")
    case True
    with Cons.prems e have "schemaPass rt es body = Inr body'"
      by (auto split: if_splits)
    from Cons.IH [OF this Cons.prems(2)] show ?thesis by auto
  next
    case False
    then obtain n where n: "name = JStr n" "n \<in> set commonFields"
      by (cases name) auto
    from False Cons.prems e obtain v where
      rest: "schemaPass rt es (obj_set body (to_key name) v) = Inr body'"
      by (auto split: if_splits sum.splits)
    from Cons.IH [OF rest Cons.prems(2)] False e n show ?thesis
      by (auto simp: obj_set_keys)
  qed
qed

lemma mapping_keys:
  assumes "requestBodyMapping rt args schema method pathParams = Inr body"
    and "k \<in> fst ` set body"
  shows "from_args pathParams args k \<or> from_schema schema k"
proof -
  from assms(1) obtain body1 where
    b1: "(if js_truthy args then argsPass rt method pathParams (each_entries args) []
          else Inr []) = Inr body1"
    and b2: "(if js_truthy (if nullish schema then JUndefined else js_prop schema ''properties'')
              then schemaPass rt
                     (each_entries (if nullish schema then JUndefined
                                    else js_prop schema ''properties'')) body1
              else Inr body1) = Inr body"
    by (auto simp: requestBodyMapping_def Let_def split: sum.splits)
  have props: "(if nullish schema then JUndefined else js_prop schema ''properties'')
                 = js_prop schema ''properties''"
    by (cases schema) auto
  have k1: "k \<in> fst ` set body1 \<Longrightarrow> from_args pathParams args k"
  proof -
    assume k: "k \<in> fst ` set body1"
    show ?thesis
    proof (cases "js_truthy args")
      case True
      with b1 have "argsPass rt method pathParams (each_entries args) [] = Inr body1" by simp
      from argsPass_keys [OF this k] show ?thesis by (simp add: from_args_def)
    next
      case False
      with b1 k show ?thesis by simp
    qed
  qed
  show ?thesis
  proof (cases "js_truthy (js_prop schema ''properties'')")
    case True
    with b2 props have "schemaPass rt (each_entries (js_prop schema ''properties'')) body1 = Inr body"
      by simp
    from schemaPass_keys [OF this assms(2)] k1 show ?thesis by (auto simp: from_schema_def)
  next
    case False
    with b2 props assms(2) k1 show ?thesis by simp
  qed
qed

text \<open>
  Where the members of a request body come from. For every argument mapping, resource
  schema, method and list of path-parameter names: the composer returns none exactly
  when the merged body mapping is empty; and whenever it returns a document, every
  member that parsing the document yields is either the key of an argument that is not
  \<^verbatim>\<open>context\<close>, is not a path parameter and is not marked read-only, or one of the common
  field names that names a property of the schema not marked read-only.
\<close>

lemma request_body_keys:
  "(generateRequestBody rt args schema method pathParams = Inr None \<longleftrightarrow>
      requestBodyMapping rt args schema method pathParams = Inr []) \<and>
   (\<forall>document. generateRequestBody rt args schema method pathParams = Inr (Some document) \<longrightarrow>
      (\<forall>k \<in> set (parsed_keys document). from_args pathParams args k \<or> from_schema schema k))"
proof (intro conjI allI impI ballI)
  show "generateRequestBody rt args schema method pathParams = Inr None \<longleftrightarrow>
      requestBodyMapping rt args schema method pathParams = Inr []"
    by (auto simp: generateRequestBody_def split: sum.splits if_splits)
next
  fix document k
  assume g: "generateRequestBody rt args schema method pathParams = Inr (Some document)"
    and k: "k \<in> set (parsed_keys document)"
  from g obtain body where b: "requestBodyMapping rt args schema method pathParams = Inr body"
    and d: "document = JObj body"
    by (auto simp: generateRequestBody_def split: sum.splits if_splits)
  from k d have "k \<in> fst ` set body" by auto
  with b show "from_args pathParams args k \<or> from_schema schema k" by (rule mapping_keys)
qed

lemma string_example:
  "lookup kvs ''enum'' = JUndefined \<Longrightarrow> lookup kvs ''default'' = JUndefined \<Longrightarrow>
   lookup kvs ''type'' = JStr ''string'' \<Longrightarrow>
   generateExampleValue rt (JObj kvs) (JStr ''title'') = Inr (JStr ''Example Title'') \<and>
   generateExampleValue rt (JObj kvs) (JStr ''name'') = Inr (JStr ''Example Title'')"
  by (subst generateExampleValue.simps, subst (2) generateExampleValue.simps)
     (simp add: enum_nonempty_def js_or_def typeReplacements_def)

lemma request_body_keys_example:
  "generateRequestBody sample_runtime
     (JObj [(''context'', JObj [(''type'', JStr ''string'')]),
            (''id'', JObj [(''type'', JStr ''integer'')]),
            (''title'', JObj [(''type'', JStr ''string'')]),
            (''date_gmt'', JObj [(''type'', JStr ''string''), (''readonly'', JBool True)])])
     (JObj [(''properties'',
             JObj [(''id'', JObj [(''type'', JStr ''integer''), (''readonly'', JBool True)]),
                   (''name'', JObj [(''type'', JStr ''string'')]),
                   (''link'', JObj [(''type'', JStr ''string'')])])])
     ''POST'' [''id'']
     = Inr (Some (JObj [(''title'', JStr ''Example Title''), (''name'', JStr ''Example Title'')])) \<and>
   (from_args [''id'']
      (JObj [(''context'', JObj [(''type'', JStr ''string'')]),
             (''id'', JObj [(''type'', JStr ''integer'')]),
             (''title'', JObj [(''type'', JStr ''string'')]),
             (''date_gmt'', JObj [(''type'', JStr ''string''), (''readonly'', JBool True)])])
      ''title'' \<or>
    from_schema
      (JObj [(''properties'',
              JObj [(''id'', JObj [(''type'', JStr ''integer''), (''readonly'', JBool True)]),
                    (''name'', JObj [(''type'', JStr ''string'')]),
                    (''link'', JObj [(''type'', JStr ''string'')])])])
      ''title'') \<and>
   generateRequestBody sample_runtime (JObj []) JNull ''POST'' [''id''] = Inr None \<and>
   requestBodyMapping sample_runtime (JObj []) JNull ''POST'' [''id''] = Inr []"
proof -
  let ?args = "JObj [(''context'', JObj [(''type'', JStr ''string'')]),
            (''id'', JObj [(''type'', JStr ''integer'')]),
            (''title'', JObj [(''type'', JStr ''string'')]),
            (''date_gmt'', JObj [(''type'', JStr ''string''), (''readonly'', JBool True)])]"
  let ?schema = "JObj [(''properties'',
             JObj [(''id'', JObj [(''type'', JStr ''integer''), (''readonly'', JBool True)]),
                   (''name'', JObj [(''type'', JStr ''string'')]),
                   (''link'', JObj [(''type'', JStr ''string'')])])]"
  have up: "toUpperCase ''POST'' = ''POST''" by (simp add: toUpperCase_def upper_char_def)
  have m: "requestBodyMapping sample_runtime ?args ?schema ''POST'' [''id'']
     = Inr [(''title'', JStr ''Example Title''), (''name'', JStr ''Example Title'')]"
    by (simp add: requestBodyMapping_def getParameterLocation_def up lookup_def commonFields_def
        js_or_def typeReplacements_def string_example)
  then have g: "generateRequestBody sample_runtime ?args ?schema ''POST'' [''id'']
     = Inr (Some (JObj [(''title'', JStr ''Example Title''), (''name'', JStr ''Example Title'')]))"
    by (simp add: generateRequestBody_def)
  have e: "requestBodyMapping sample_runtime (JObj []) JNull ''POST'' [''id''] = Inr []"
    by (simp add: requestBodyMapping_def)
  note keys = request_body_keys [of sample_runtime ?args ?schema "''POST''" "[''id'']",
      THEN conjunct2, rule_format, OF g]
  have "from_args [''id''] ?args ''title'' \<or> from_schema ?schema ''title''"
    by (rule keys) simp
  moreover have "generateRequestBody sample_runtime (JObj []) JNull ''POST'' [''id''] = Inr None"
    using request_body_keys [of sample_runtime "JObj []" JNull "''POST''" "[''id'']"] e
    by blast
  ultimately show ?thesis using g e by blast
qed

text \<open>
  C2. For every argument mapping, resource schema, mutating method and list of
  path-parameter names, the document that the composer returns is to hold, once parsed,
  no member named like a path parameter (and no read-only field). The loop over the
  arguments skips the path parameters; the loop over the schema misses that check. For
  the method POST, no argument, the path parameter \<^verbatim>\<open>name\<close> and a schema whose one
  property is \<^verbatim>\<open>name\<close>, the composer returns a document whose one member is \<^verbatim>\<open>name\<close>.
\<close>

theorem request_body_holds_path_name:
  "generateRequestBody sample_runtime (JObj [])
     (JObj [(''properties'', JObj [(''name'', JObj [(''type'', JStr ''string'')])])])
     ''POST'' [''name'']
     = Inr (Some (JObj [(''name'', JStr ''Example Title'')])) \<and>
   parsed_keys (JObj [(''name'', JStr ''Example Title'')]) = [''name''] \<and>
   ''name'' \<in> set [''name'']"
  by (simp add: generateRequestBody_def requestBodyMapping_def lookup_def commonFields_def
      string_example)

section \<open>Totality of the transformer\<close>

lemma join_ok:
  "\<forall>x \<in> set xs. printable x \<longrightarrow> \<not> isl (js_to_string x) \<Longrightarrow> list_all printable xs \<Longrightarrow>
   \<not> isl (js_join sep xs)"
proof (induction xs)
  case Nil
  show ?case by simp
next
  case (Cons x xs)
  then have x: "\<not> isl (js_to_string x)" and xs: "\<not> isl (js_join sep xs)" by auto
  from x obtain s where s: "js_to_string x = Inr s" by (cases "js_to_string x") auto
  from xs obtain t where t: "js_join sep xs = Inr t" by (cases "js_join sep xs") auto
  show ?case by (simp add: s t)
qed

lemma printable_to_string: "printable v \<Longrightarrow> \<not> isl (js_to_string v)"
proof (induction v)
  case (JArr xs)
  have "\<not> isl (js_join '','' xs)"
  proof (rule join_ok)
    show "\<forall>x \<in> set xs. printable x \<longrightarrow> \<not> isl (js_to_string x)"
      using JArr.IH by blast
    show "list_all printable xs" using JArr.prems by simp
  qed
  then show ?case by simp
qed simp_all

lemma printable_join: "list_all printable xs \<Longrightarrow> \<not> isl (js_join sep xs)"
  by (rule join_ok) (simp_all add: printable_to_string)

lemma traverse_ok:
  "\<forall>x \<in> set xs. \<not> isl (f x) \<Longrightarrow> \<not> isl (traverse f xs)"
proof (induction xs)
  case Nil
  show ?case by simp
next
  case (Cons x xs)
  then have x: "\<not> isl (f x)" and xs: "\<not> isl (traverse f xs)" by auto
  from x obtain y where y: "f x = Inr y" by (cases "f x") auto
  from xs obtain ys where ys: "traverse f xs = Inr ys" by (cases "traverse f xs") auto
  show ?case by (simp add: y ys)
qed

lemma dedupe_subset: "set (dedupe seen xs) \<subseteq> set xs"
  by (induction xs arbitrary: seen) auto

lemma enum_nonempty_ok: "list_or_falsy e \<Longrightarrow> \<not> isl (enum_nonempty rt e)"
  by (cases e) (auto simp: list_or_falsy_def enum_nonempty_def)

lemma normalizeEnum_ok: "list_or_falsy e \<Longrightarrow> list_or_falsy (normalizeEnum e)"
  using dedupe_subset [of "[]"]
  by (cases e) (auto simp: list_or_falsy_def list_all_iff)

lemma traverse_printable:
  "\<forall>x \<in> set xs. printable x \<longrightarrow> (\<exists>y. f x = Inr y \<and> printable y) \<Longrightarrow> list_all printable xs \<Longrightarrow>
   \<exists>ys. traverse f xs = Inr ys \<and> list_all printable ys"
proof (induction xs)
  case Nil
  show ?case by simp
next
  case (Cons x xs)
  then obtain y ys where y: "f x = Inr y" "printable y"
    and ys: "traverse f xs = Inr ys" "list_all printable ys"
    by auto
  then show ?case by simp
qed

lemma normalize_ok: "printable t \<Longrightarrow> \<exists>nt. normalizeWordPressType t = Inr nt \<and> printable nt"
proof (induction t)
  case (JArr ts)
  have "\<exists>ns. traverse normalizeWordPressType ts = Inr ns \<and> list_all printable ns"
  proof (rule traverse_printable)
    show "\<forall>x \<in> set ts. printable x \<longrightarrow> (\<exists>y. normalizeWordPressType x = Inr y \<and> printable y)"
      using JArr.IH by blast
    show "list_all printable ts" using JArr.prems by simp
  qed
  then show ?case by auto
next
  case (JObj kvs)
  then show ?case by (simp add: typeReplacements_def)
qed (simp_all split: option.splits)

lemma normalize_type_ok:
  "printable t \<Longrightarrow>
   \<exists>nt. normalizeWordPressType (js_or t (JStr ''string'')) = Inr nt \<and> printable nt"
  by (rule normalize_ok) (simp add: js_or_def)

lemma gen_ok: "field_ok p \<Longrightarrow> \<not> isl (generateExampleValue rt p name)"
proof (induction p arbitrary: name rule: measure_induct_rule [of size])
  case (less p)
  have "field_ok p =
     (\<not> nullish p \<and> printable (js_prop p ''type'') \<and> list_or_falsy (js_prop p ''enum'') \<and>
      list_all (\<lambda>(k, q). field_ok q) (each_entries (js_prop p ''properties'')))"
    by (rule field_ok.simps)
  with less.prems have nn: "\<not> nullish p" and pt: "printable (js_prop p ''type'')"
    and le: "list_or_falsy (js_prop p ''enum'')"
    and nested: "list_all (\<lambda>(k, q). field_ok q) (each_entries (js_prop p ''properties''))"
    by blast+
  from le obtain b where en: "enum_nonempty rt (js_prop p ''enum'') = Inr b"
    using enum_nonempty_ok [of "js_prop p ''enum''" rt]
    by (cases "enum_nonempty rt (js_prop p ''enum'')") auto
  from normalize_type_ok [OF pt] obtain nt where
    nt: "normalizeWordPressType (js_or (js_prop p ''type'') (JStr ''string'')) = Inr nt"
    by blast
  have "\<not> isl (traverse (\<lambda>(propName, prop).
                 case generateExampleValue rt prop propName of
                   Inl e \<Rightarrow> Inl e | Inr v \<Rightarrow> Inr (propName, v))
              (each_entries (js_prop p ''properties'')))"
  proof (rule traverse_ok, rule ballI)
    fix e assume e: "e \<in> set (each_entries (js_prop p ''properties''))"
    obtain k q where kq: "e = (k, q)" by (cases e)
    from e kq have "size q < size p" by (auto dest: prop_entries_size)
    moreover from e kq nested have "field_ok q" by (auto simp: list_all_iff)
    ultimately have "\<not> isl (generateExampleValue rt q k)" by (rule less.IH)
    then show "\<not> isl (case e of (propName, prop) \<Rightarrow>
                 case generateExampleValue rt prop propName of
                   Inl e \<Rightarrow> Inl e | Inr v \<Rightarrow> Inr (propName, v))"
      by (cases "generateExampleValue rt q k") (simp_all add: kq)
  qed
  then obtain kvs where tr: "traverse (\<lambda>(propName, prop).
                 case generateExampleValue rt prop propName of
                   Inl e \<Rightarrow> Inl e | Inr v \<Rightarrow> Inr (propName, v))
              (each_entries (js_prop p ''properties'')) = Inr kvs"
    by (cases "traverse (\<lambda>(propName, prop).
                 case generateExampleValue rt prop propName of
                   Inl e \<Rightarrow> Inl e | Inr v \<Rightarrow> Inr (propName, v))
              (each_entries (js_prop p ''properties''))") auto
  show ?case
    by (simp add: generateExampleValue.simps [of rt p name] nn en nt tr)
qed

lemma not_isl_Inr: "\<not> isl r \<Longrightarrow> \<exists>v. r = Inr v"
  by (cases r) auto

lemma lookup_constraints:
  "lookup (concat (map (\<lambda>c. if f c \<noteq> JUndefined then [(c, f c)] else []) cs)) k
     = (if k \<in> set cs then f k else JUndefined)"
  by (induction cs) (auto simp: lookup_def)

lemma lookup_obj_set: "lookup (obj_set kvs k v) k' = (if k' = k then v else lookup kvs k')"
  by (induction kvs) (auto simp: lookup_def)

lemma constraints_ok:
  assumes "\<not> nullish arg"
  shows "\<exists>c. extractValidationConstraints arg = Inr (JObj c) \<and>
           lookup c ''enum'' = (if js_truthy (js_prop arg ''enum'')
                                then normalizeEnum (js_prop arg ''enum'')
                                else js_prop arg ''enum'') \<and>
           lookup c ''minLength'' = js_prop arg ''minLength'' \<and>
           lookup c ''maxLength'' = js_prop arg ''maxLength''"
proof -
  let ?c = "concat (map (\<lambda>c. if js_prop arg c \<noteq> JUndefined then [(c, js_prop arg c)] else [])
                      supportedConstraints)"
  have l: "lookup ?c ''enum'' = js_prop arg ''enum''"
    "lookup ?c ''minLength'' = js_prop arg ''minLength''"
    "lookup ?c ''maxLength'' = js_prop arg ''maxLength''"
    by (simp_all only: lookup_constraints) (simp_all add: supportedConstraints_def)
  from assms have "extractValidationConstraints arg
      = Inr (JObj (if js_truthy (lookup ?c ''enum'')
                   then obj_set ?c ''enum'' (normalizeEnum (lookup ?c ''enum'')) else ?c))"
    by (simp add: extractValidationConstraints_def Let_def)
  then show ?thesis
    by (cases "js_truthy (js_prop arg ''enum'')") (simp_all add: l lookup_obj_set)
qed

lemma append_ok: "printable d \<Longrightarrow> \<exists>t. js_append d s = Inr (JStr t)"
  using printable_to_string [of d] by (cases "js_to_string d") (auto simp: js_append_def)

lemma enum_join_ok:
  assumes "list_or_falsy e" and "js_truthy (if js_truthy e then normalizeEnum e else e)"
  shows "\<not> isl (call_join (if js_truthy e then normalizeEnum e else e))"
proof -
  from assms obtain xs where e: "e = JArr xs" and p: "list_all printable xs"
    by (cases e) (auto simp: list_or_falsy_def split: if_splits)
  have "list_all printable (dedupe [] xs)"
    using p dedupe_subset [of "[]" xs] by (auto simp: list_all_iff)
  then show ?thesis by (simp add: e printable_join)
qed

lemma queryDescription_ok:
  assumes "arg_ok arg"
    and c: "lookup c ''enum'' = (if js_truthy (js_prop arg ''enum'')
                                then normalizeEnum (js_prop arg ''enum'')
                                else js_prop arg ''enum'')"
      "lookup c ''minLength'' = js_prop arg ''minLength''"
      "lookup c ''maxLength'' = js_prop arg ''maxLength''"
  shows "\<not> isl (queryDescription arg (JObj c))"
proof -
  let ?d0 = "js_or (js_prop arg ''description'') (JStr [])"
  let ?enum = "lookup c ''enum''"
  from assms(1) have pd: "printable ?d0"
    and pmin: "printable (js_prop arg ''minLength'')"
    and pmax: "printable (js_prop arg ''maxLength'')"
    and le: "list_or_falsy (js_prop arg ''enum'')"
    by (auto simp: arg_ok_def js_or_def)
  have step1: "\<exists>t. (if js_truthy ?enum then
              and_then (js_append ?d0 (if js_truthy ?d0 then ''. '' else []))
                (\<lambda>d. and_then (call_join ?enum)
                  (\<lambda>joined. js_append d (''Allowed values: '' @ joined)))
            else Inr ?d0) = Inr t \<and> printable t"
  proof (cases "js_truthy ?enum")
    case False
    with pd show ?thesis by simp
  next
    case True
    from printable_to_string [OF pd] obtain t0 where t0: "js_to_string ?d0 = Inr t0"
      by (auto dest: not_isl_Inr)
    from True c(1) enum_join_ok [OF le] obtain joined where j: "call_join ?enum = Inr joined"
      by (auto dest: not_isl_Inr)
    from True show ?thesis
      by (simp add: and_then_def t0 j js_append_def)
  qed
  then obtain d1 where d1: "(if js_truthy ?enum then
              and_then (js_append ?d0 (if js_truthy ?d0 then ''. '' else []))
                (\<lambda>d. and_then (call_join ?enum)
                  (\<lambda>joined. js_append d (''Allowed values: '' @ joined)))
            else Inr ?d0) = Inr d1" and pd1: "printable d1" by blast
  from printable_to_string [OF pd1] obtain t2 where t2: "js_to_string d1 = Inr t2"
    by (auto dest: not_isl_Inr)
  from printable_to_string [OF pmin] obtain smin where
    smin: "js_to_string (js_prop arg ''minLength'') = Inr smin" by (auto dest: not_isl_Inr)
  from printable_to_string [OF pmax] obtain smax where
    smax: "js_to_string (js_prop arg ''maxLength'') = Inr smax" by (auto dest: not_isl_Inr)
  show ?thesis
    unfolding queryDescription_def Let_def js_prop.simps d1 c(2,3)
    by (simp add: and_then_def t2 smin smax js_append_def)
qed

lemma paramFromArg_ok:
  assumes "k = JStr ''context'' \<or> arg_ok arg"
  shows "\<not> isl (paramFromArg methodUpper pathParams (k, arg))"
proof (cases "k = JStr ''context''")
  case True
  then show ?thesis by (simp add: paramFromArg_def)
next
  case False
  with assms have ok: "arg_ok arg" by simp
  then have nn: "\<not> nullish arg" and pdef: "printable (js_prop arg ''default'')"
    by (simp_all add: arg_ok_def)
  from constraints_ok [OF nn] obtain c where
    c: "extractValidationConstraints arg = Inr (JObj c)"
    and l: "lookup c ''enum'' = (if js_truthy (js_prop arg ''enum'')
                                then normalizeEnum (js_prop arg ''enum'')
                                else js_prop arg ''enum'')"
      "lookup c ''minLength'' = js_prop arg ''minLength''"
      "lookup c ''maxLength'' = js_prop arg ''maxLength''"
    by blast
  from queryDescription_ok [OF ok l] obtain d where
    d: "queryDescription arg (JObj c) = Inr d" by (auto dest: not_isl_Inr)
  from printable_to_string [OF pdef] obtain s where
    s: "js_to_string (js_prop arg ''default'') = Inr s" by (auto dest: not_isl_Inr)
  have r: "\<not> isl (isParameterRequired arg False)"
    using nn by (simp add: isParameterRequired_def split: jsval.splits)
  then obtain b where b: "isParameterRequired arg False = Inr b" by (auto dest: not_isl_Inr)
  show ?thesis
    using False nn
    by (cases "getParameterLocation methodUpper k pathParams")
       (simp_all add: paramFromArg_def and_then_def c d s b)
qed

lemma argParams_ok: "args_ok args \<Longrightarrow> \<not> isl (argParams methodUpper pathParams args)"
proof -
  assume a: "args_ok args"
  have "\<not> isl (traverse (paramFromArg methodUpper pathParams) (each_entries args))"
  proof (rule traverse_ok, rule ballI)
    fix e assume "e \<in> set (each_entries args)"
    with a have "fst e = JStr ''context'' \<or> arg_ok (snd e)"
      by (auto simp: args_ok_def list_all_iff)
    from paramFromArg_ok [OF this] show "\<not> isl (paramFromArg methodUpper pathParams e)"
      by simp
  qed
  then show ?thesis
    by (auto simp: argParams_def dest: not_isl_Inr)
qed

lemma built_property_ok:
  assumes "list_or_falsy e" and "printable t"
  shows "\<not> isl (generateExampleValue rt
             (JObj [(''type'', t), (''default'', d),
                    (''enum'', if js_truthy e then normalizeEnum e else JUndefined),
                    (''format'', f)]) name)"
proof (rule gen_ok)
  have "list_or_falsy (if js_truthy e then normalizeEnum e else JUndefined)"
    using normalizeEnum_ok [OF assms(1)] by (simp add: list_or_falsy_def)
  with assms(2) show "field_ok (JObj [(''type'', t), (''default'', d),
                    (''enum'', if js_truthy e then normalizeEnum e else JUndefined),
                    (''format'', f)])"
    by (subst field_ok.simps) (simp add: lookup_def)
qed

lemma argsPass_ok:
  "list_all (\<lambda>(k, arg). k = JStr ''context'' \<or> arg_ok arg) es \<Longrightarrow>
   \<not> isl (argsPass rt method pathParams es body)"
proof (induction es arbitrary: body)
  case Nil
  show ?case by simp
next
  case (Cons e es)
  obtain argName arg where e: "e = (argName, arg)" by (cases e)
  from Cons.prems e have here: "argName = JStr ''context'' \<or> arg_ok arg"
    and rest: "list_all (\<lambda>(k, arg). k = JStr ''context'' \<or> arg_ok arg) es" by auto
  note ih = Cons.IH [OF rest]
  show ?case
  proof (cases "argName = JStr ''context'' \<or> includes_name pathParams argName")
    case True
    with ih e show ?thesis by auto
  next
    case False
    with here have ok: "arg_ok arg" by simp
    then have nn: "\<not> nullish arg" and le: "list_or_falsy (js_prop arg ''enum'')"
      and pt: "printable (js_prop arg ''type'')"
      by (simp_all add: arg_ok_def)
    from normalize_type_ok [OF pt] obtain nt where
      nt: "normalizeWordPressType (js_or (js_prop arg ''type'') (JStr ''string'')) = Inr nt"
      and pnt: "printable nt"
      by blast
    from built_property_ok [OF le pnt] obtain v where
      v: "generateExampleValue rt
             (JObj [(''type'', nt),
                    (''default'', js_prop arg ''default''),
                    (''enum'', if js_truthy (js_prop arg ''enum'')
                               then normalizeEnum (js_prop arg ''enum'') else JUndefined),
                    (''format'', js_prop arg ''format'')]) argName = Inr v"
      by (blast dest: not_isl_Inr)
    from False nn ih e show ?thesis
      by (simp add: nt v)
  qed
qed

lemma schemaPass_ok:
  "list_all (\<lambda>(k, q). field_ok q) es \<Longrightarrow> \<not> isl (schemaPass rt es body)"
proof (induction es arbitrary: body)
  case Nil
  show ?case by simp
next
  case (Cons e es)
  obtain name property where e: "e = (name, property)" by (cases e)
  from Cons.prems e have here: "field_ok property"
    and rest: "list_all (\<lambda>(k, q). field_ok q) es" by auto
  note ih = Cons.IH [OF rest]
  from here have nn: "\<not> nullish property" by (subst (asm) field_ok.simps) simp
  from gen_ok [OF here] obtain v where v: "generateExampleValue rt property name = Inr v"
    by (blast dest: not_isl_Inr)
  from nn ih e show ?case by (simp add: v)
qed

lemma generateRequestBody_ok:
  assumes "args_ok args" and "schema_ok schema"
  shows "\<not> isl (generateRequestBody rt args schema method pathParams)"
proof -
  have "\<not> isl (if js_truthy args then argsPass rt method pathParams (each_entries args) []
               else Inr [])"
    using assms(1) by (simp add: args_ok_def argsPass_ok)
  then obtain body1 where b1: "(if js_truthy args
      then argsPass rt method pathParams (each_entries args) [] else Inr []) = Inr body1"
    by (blast dest: not_isl_Inr)
  have props: "(if nullish schema then JUndefined else js_prop schema ''properties'')
                 = js_prop schema ''properties''"
    by (cases schema) auto
  have "\<not> isl (schemaPass rt (each_entries (js_prop schema ''properties'')) body1)"
    using assms(2) by (simp add: schema_ok_def schemaPass_ok)
  then obtain body where
    b: "schemaPass rt (each_entries (js_prop schema ''properties'')) body1 = Inr body"
    by (blast dest: not_isl_Inr)
  show ?thesis
    by (simp add: generateRequestBody_def requestBodyMapping_def b1 props Let_def b)
qed

text \<open>
  C7, as amended. For every route, method, runtime, endpoint object and schema: when the
  arguments of the endpoint and the schema are well shaped (every argument other than
  \<^verbatim>\<open>context\<close> and every schema property, at any depth, is neither \<^verbatim>\<open>null\<close> nor
  \<^verbatim>\<open>undefined\<close>; the members \<^verbatim>\<open>type\<close>, \<^verbatim>\<open>default\<close>, \<^verbatim>\<open>description\<close>, \<^verbatim>\<open>minLength\<close> and
  \<^verbatim>\<open>maxLength\<close> of an argument and the member \<^verbatim>\<open>type\<close> of a schema property are missing
  or convertible to text; an \<^verbatim>\<open>enum\<close> is missing, falsy, or a list of values convertible
  to text), the transformer returns a descriptor and raises nothing. Missing members
  degrade to defaults.
\<close>

theorem transform_total_on_well_shaped:
  assumes "\<not> nullish endpoint" and "args_ok (endpointArgs endpoint)" and "schema_ok schema"
  shows "\<exists>d. transformWordPressEndpoint rt route method endpoint schema = Inr d"
proof -
  from argParams_ok [OF assms(2)] obtain ps where
    ps: "argParams (toUpperCase method) (extractPathParameters route) (endpointArgs endpoint)
           = Inr ps"
    by (blast dest: not_isl_Inr)
  have "\<not> isl (if toUpperCase method \<in> set [''POST'', ''PUT'', ''PATCH'']
      then generateRequestBody rt (endpointArgs endpoint) schema (toUpperCase method)
             (extractPathParameters route)
      else Inr None)"
    using generateRequestBody_ok [OF assms(2,3)] by simp
  then obtain bodyJson where b: "(if toUpperCase method \<in> set [''POST'', ''PUT'', ''PATCH'']
      then generateRequestBody rt (endpointArgs endpoint) schema (toUpperCase method)
             (extractPathParameters route)
      else Inr None) = Inr bodyJson"
    by (blast dest: not_isl_Inr)
  from assms(1) ps b show ?thesis by (rule transform_ok)
qed

theorem transform_total_on_well_shaped_witness:
  "\<not> nullish (JObj [(''args'',
       JObj [(''context'', JNull),
             (''per_page'', JObj [(''default'', JNum 10), (''enum'', JArr [JNum 10, JNum 20])]),
             (''title'', JObj [])])]) \<and>
   args_ok (endpointArgs (JObj [(''args'',
       JObj [(''context'', JNull),
             (''per_page'', JObj [(''default'', JNum 10), (''enum'', JArr [JNum 10, JNum 20])]),
             (''title'', JObj [])])])) \<and>
   schema_ok (JObj [(''properties'',
       JObj [(''status'', JObj [(''enum'', JArr [])]),
             (''meta'', JObj [(''type'', JStr ''object''),
                              (''properties'', JObj [(''views'', JObj [])])])])]) \<and>
   (\<exists>d. transformWordPressEndpoint sample_runtime ''/wp/v2/posts'' ''POST''
          (JObj [(''args'',
             JObj [(''context'', JNull),
                   (''per_page'', JObj [(''default'', JNum 10), (''enum'', JArr [JNum 10, JNum 20])]),
                   (''title'', JObj [])])])
          (JObj [(''properties'',
             JObj [(''status'', JObj [(''enum'', JArr [])]),
                   (''meta'', JObj [(''type'', JStr ''object''),
                                    (''properties'', JObj [(''views'', JObj [])])])])])
        = Inr d)"
proof -
  let ?ep = "JObj [(''args'',
       JObj [(''context'', JNull),
             (''per_page'', JObj [(''default'', JNum 10), (''enum'', JArr [JNum 10, JNum 20])]),
             (''title'', JObj [])])]"
  let ?schema = "JObj [(''properties'',
       JObj [(''status'', JObj [(''enum'', JArr [])]),
             (''meta'', JObj [(''type'', JStr ''object''),
                              (''properties'', JObj [(''views'', JObj [])])])])]"
  have h1: "\<not> nullish ?ep" by simp
  have h2: "args_ok (endpointArgs ?ep)"
    by (simp add: endpointArgs_def js_or_def lookup_def args_ok_def arg_ok_def list_or_falsy_def)
  have f1: "field_ok (JObj [(''enum'', JArr [])])"
    by (subst field_ok.simps) (simp add: lookup_def list_or_falsy_def)
  have f2: "field_ok (JObj [])"
    by (subst field_ok.simps) (simp add: lookup_def list_or_falsy_def)
  have f3: "field_ok (JObj [(''type'', JStr ''object''),
                            (''properties'', JObj [(''views'', JObj [])])])"
    by (subst field_ok.simps) (simp add: lookup_def list_or_falsy_def f2)
  have h3: "schema_ok ?schema"
    by (simp add: schema_ok_def lookup_def f1 f3)
  from transform_total_on_well_shaped [OF h1 h2 h3] h1 h2 h3 show ?thesis by blast
qed

text \<open>
  A member that is not convertible to text makes the transformer raise as well: a
  \<^verbatim>\<open>type\<close> that is an object with a member \<^verbatim>\<open>toString\<close> cannot be used as the key under
  which the table of type replacements is read.
\<close>

lemma transform_unprintable_type_raises:
  "transformWordPressEndpoint sample_runtime ''/wp/v2/posts'' ''POST''
     (JObj [(''args'', JObj [(''title'', JObj [(''type'', JObj [(''toString'', JNum 1)])])])])
     JNull
   = Inl TypeError"
  by (simp add: transformWordPressEndpoint_def Let_def and_then_def toUpperCase_def upper_char_def
      endpointArgs_def js_or_def lookup_def extractPathParameters_def match_group_def argParams_def
      paramFromArg_def getParameterLocation_def generateRequestBody_def requestBodyMapping_def)

text \<open>
  The claim as first stated admits arguments of any shape. An argument that is
  \<^verbatim>\<open>null\<close> makes the read of its \<^verbatim>\<open>default\<close> raise a \<^verbatim>\<open>TypeError\<close>, which leaves the
  transformer; the caller catches it.
\<close>

theorem transform_null_argument_counterexample:
  "transformWordPressEndpoint sample_runtime ''/wp/v2/posts'' ''GET''
     (JObj [(''args'', JObj [(''status'', JNull)])]) JNull = Inl TypeError"
proof -
  have "argParams ''GET'' [] (JObj [(''status'', JNull)]) = Inl TypeError"
    by (simp add: argParams_def paramFromArg_def location_GET)
  then show ?thesis
    by (simp add: transformWordPressEndpoint_def Let_def and_then_def toUpperCase_GET
        endpointArgs_def js_or_def lookup_def path_params_posts)
qed

end
